theory Spec2Isabelle
  imports Complex_Main "HOL-Library.Word"
begin

section \<open>The attendance table\<close>

text \<open>
  A row of the \<^verbatim>\<open>attendances\<close> table as the pages write it. Instants are
  milliseconds since the epoch (the ISO strings of \<^verbatim>\<open>toISOString()\<close> denote exactly
  those), \<^verbatim>\<open>check_out\<close> and \<^verbatim>\<open>total_hours\<close> are null until the row is closed, and
  \<^verbatim>\<open>att_id\<close> is the primary key the storage generates on insert.
\<close>

datatype att_status = checked_in | checked_out

record attendance =
  att_id :: nat
  employee_id :: string
  check_in :: int
  check_out :: "int option"
  total_hours :: "real option"
  status :: att_status

type_synonym attendances = "attendance list"

text \<open>
  The query builder. \<^verbatim>\<open>maybeSingle()\<close> yields the row when the result has exactly one,
  and null data otherwise (no row, or several rows: the client then reports an error
  that the callers below never read, and \<^verbatim>\<open>data\<close> is null).
\<close>

fun maybeSingle :: "'a list \<Rightarrow> 'a option" where
  "maybeSingle [] = None"
| "maybeSingle [r] = Some r"
| "maybeSingle (r # r' # rs) = None"

text \<open>\<^verbatim>\<open>.eq("employee_id", employeeId).is("check_out", null)\<close>\<close>

definition open_rows :: "string \<Rightarrow> attendances \<Rightarrow> attendance list" where
  "open_rows employeeId tbl =
     filter (\<lambda>r. employee_id r = employeeId \<and> check_out r = None) tbl"

text \<open>
  \<^verbatim>\<open>.order("check_in", { ascending: false }).limit(1).maybeSingle()\<close>: the row with the
  greatest \<^verbatim>\<open>check_in\<close> (the earliest such row of the table when several share it), null
  when there is none.
\<close>

fun latest :: "attendance list \<Rightarrow> attendance option" where
  "latest [] = None"
| "latest (r # rs) =
     (case latest rs of
        None \<Rightarrow> Some r
      | Some m \<Rightarrow> if check_in r < check_in m then Some m else Some r)"

text \<open>The key of an inserted row: greater than every key in the table.\<close>

definition fresh_id :: "attendances \<Rightarrow> nat" where
  "fresh_id tbl = foldr (\<lambda>r m. max (Suc (att_id r)) m) tbl 0"

text \<open>\<^verbatim>\<open>.update(f).eq("id", i)\<close>\<close>

definition update_where_id :: "nat \<Rightarrow> (attendance \<Rightarrow> attendance) \<Rightarrow> attendances \<Rightarrow> attendances" where
  "update_where_id i f tbl = map (\<lambda>r. if att_id r = i then f r else r) tbl"

section \<open>Worked hours\<close>

text \<open>
  \<^verbatim>\<open>a.diff(b, "minute")\<close> of dayjs: the difference in milliseconds divided by 60000 and
  cut towards zero (no \<^verbatim>\<open>float\<close> flag is passed).
\<close>

definition diff_minute :: "int \<Rightarrow> int \<Rightarrow> int" where
  "diff_minute a b =
     (let d = a - b in if d < 0 then - ((- d) div 60000) else d div 60000)"

text \<open>
  \<^verbatim>\<open>Number(x).toFixed(2)\<close> read back as a number: the multiple of 1/100 nearest to \<open>x\<close>,
  the one farther from zero when two are equally near. Numbers are exact reals here;
  a quotient \<open>m / 60\<close> of an integer is never half-way between two multiples of 1/100, so
  rounding the nearest double instead picks the same multiple.
\<close>

definition toFixed2 :: "real \<Rightarrow> real" where
  "toFixed2 x =
     (if x < 0 then - (real_of_int \<lfloor>(- x) * 100 + 1 / 2\<rfloor> / 100)
      else real_of_int \<lfloor>x * 100 + 1 / 2\<rfloor> / 100)"

section \<open>The session manager: \<^verbatim>\<open>markAttendance\<close>\<close>

datatype att_type = CheckIn | CheckOut

text \<open>
  The rejections of the attendance managers: \<^verbatim>\<open>markAttendance\<close> throws
  \<^verbatim>\<open>"Already checked in"\<close> and \<^verbatim>\<open>"No active check-in session"\<close> (the scanner page shows
  the same two as toasts); \<^verbatim>\<open>markAttendanceForEmployeeId\<close> reports
  \<^verbatim>\<open>"Already checked out"\<close>, and \<^verbatim>\<open>"Could not check attendance"\<close> when its query fails.
\<close>

datatype att_error = AlreadyCheckedIn | NoActiveSession | AlreadyCheckedOut | CouldNotCheckAttendance

definition new_session :: "nat \<Rightarrow> string \<Rightarrow> int \<Rightarrow> attendance" where
  "new_session i employeeId now =
     \<lparr>att_id = i, employee_id = employeeId, check_in = now, check_out = None,
      total_hours = None, status = checked_in\<rparr>"

definition close_session :: "int \<Rightarrow> int \<Rightarrow> attendance \<Rightarrow> attendance" where
  "close_session checkOutTime totalMinutes r =
     r\<lparr>check_out := Some checkOutTime, status := checked_out,
       total_hours := Some (toFixed2 (real_of_int totalMinutes / 60))\<rparr>"

text \<open>
  \<^verbatim>\<open>markAttendance(employeeId, type)\<close> with the clock reading and the table made explicit;
  the result pairs what the caller sees (the thrown error, or \<^verbatim>\<open>true\<close>) with the table
  afterwards. The message handler of the scanner page runs the same two branches.
\<close>

definition markAttendance ::
  "string \<Rightarrow> att_type \<Rightarrow> int \<Rightarrow> attendances \<Rightarrow> (att_error + bool) \<times> attendances" where
  "markAttendance employeeId ty now tbl =
     (case ty of
        CheckIn \<Rightarrow>
          (case maybeSingle (open_rows employeeId tbl) of
             Some existingCheckIn \<Rightarrow> (Inl AlreadyCheckedIn, tbl)
           | None \<Rightarrow> (Inr True, tbl @ [new_session (fresh_id tbl) employeeId now]))
      | CheckOut \<Rightarrow>
          (case latest (open_rows employeeId tbl) of
             None \<Rightarrow> (Inl NoActiveSession, tbl)
           | Some lastAttendance \<Rightarrow>
               (Inr True,
                update_where_id (att_id lastAttendance)
                  (close_session now (diff_minute now (check_in lastAttendance))) tbl)))"

text \<open>A request is (person, action, clock reading); \<open>run\<close> applies requests in order.\<close>

type_synonym request = "string \<times> att_type \<times> int"

definition step :: "request \<Rightarrow> attendances \<Rightarrow> attendances" where
  "step rq tbl = (case rq of (employeeId, ty, now) \<Rightarrow> snd (markAttendance employeeId ty now tbl))"

definition run :: "request list \<Rightarrow> attendances \<Rightarrow> attendances" where
  "run rqs tbl = fold step rqs tbl"

text \<open>
  Modelled from the spec: the day key of an instant, the calendar date in a fixed
  reference timezone (\<open>tz\<close> is its offset from UTC in milliseconds). \<^verbatim>\<open>markAttendance\<close>
  itself computes no day.
\<close>

definition dayKey :: "int \<Rightarrow> int \<Rightarrow> int" where
  "dayKey tz t = (t + tz) div 86400000"

text \<open>The sessions of a person with status OPEN, on any day and on one day.\<close>

definition open_sessions_of :: "string \<Rightarrow> attendances \<Rightarrow> attendance list" where
  "open_sessions_of personId tbl =
     filter (\<lambda>r. employee_id r = personId \<and> status r = checked_in) tbl"

definition open_sessions_on :: "int \<Rightarrow> string \<Rightarrow> int \<Rightarrow> attendances \<Rightarrow> attendance list" where
  "open_sessions_on tz personId d tbl =
     filter (\<lambda>r. dayKey tz (check_in r) = d) (open_sessions_of personId tbl)"

text \<open>
  Modelled from the spec: invariant I1, at most one session with status OPEN for any
  person and day. Only the pairs of the table's own rows need testing: a person and day
  with no row has no session.
\<close>

definition invariant_I1 :: "int \<Rightarrow> attendances \<Rightarrow> bool" where
  "invariant_I1 tz tbl =
     list_all (\<lambda>r. length (open_sessions_on tz (employee_id r) (dayKey tz (check_in r)) tbl) \<le> 1) tbl"


text \<open>
  Modelled from the spec: invariant I2's worked hours, the exact difference of the two
  instants in hours, rounded to two decimals.
\<close>

definition exact_hours_2dp :: "int \<Rightarrow> int \<Rightarrow> real" where
  "exact_hours_2dp t1 t2 = toFixed2 (real_of_int (t2 - t1) / 3600000)"

section \<open>The scan toggle: \<^verbatim>\<open>markAttendanceForEmployeeId\<close>\<close>

text \<open>
  \<^verbatim>\<open>startOfDayIso\<close> and \<^verbatim>\<open>endOfDayIso\<close>: \<^verbatim>\<open>setHours(0, 0, 0, 0)\<close> and
  \<^verbatim>\<open>setHours(23, 59, 59, 999)\<close> in the local timezone, taken as a fixed offset \<open>tz\<close> from
  UTC in milliseconds.
\<close>

definition startOfDayIso :: "int \<Rightarrow> int \<Rightarrow> int" where
  "startOfDayIso tz d = d - (d + tz) mod 86400000"

definition endOfDayIso :: "int \<Rightarrow> int \<Rightarrow> int" where
  "endOfDayIso tz d = startOfDayIso tz d + 86399999"

text \<open>The \<^verbatim>\<open>error\<close> field of \<^verbatim>\<open>maybeSingle()\<close>: set when the result has several rows.\<close>

definition maybeSingle_error :: "'a list \<Rightarrow> bool" where
  "maybeSingle_error rows = (1 < length rows)"

text \<open>
  \<^verbatim>\<open>.eq("employee_id", employeeId).gte("check_in", start).lt("check_in", end)\<close>
\<close>

definition today_rows :: "int \<Rightarrow> string \<Rightarrow> int \<Rightarrow> attendances \<Rightarrow> attendance list" where
  "today_rows tz employeeId now tbl =
     filter (\<lambda>r. employee_id r = employeeId \<and> startOfDayIso tz now \<le> check_in r \<and>
                 check_in r < endOfDayIso tz now) tbl"

text \<open>
  The update of the toggle: the hours are the difference in milliseconds over 3600000,
  \<^verbatim>\<open>toFixed(2)\<close> (on exact reals; a double exactly half-way may round the other way).
\<close>

definition close_today :: "int \<Rightarrow> attendance \<Rightarrow> attendance" where
  "close_today now r =
     r\<lparr>check_out := Some now,
       total_hours := Some (toFixed2 (real_of_int (now - check_in r) / 3600000)),
       status := checked_out\<rparr>"

text \<open>
  One scan decides by today's record alone: none, check in; one without check-out, check
  out; one with check-out, report it. The result pairs the toast with the table afterwards.
\<close>

definition markAttendanceForEmployeeId ::
  "int \<Rightarrow> string \<Rightarrow> int \<Rightarrow> attendances \<Rightarrow> (att_error + att_type) \<times> attendances" where
  "markAttendanceForEmployeeId tz employeeId now tbl =
     (let rows = today_rows tz employeeId now tbl in
      if maybeSingle_error rows then (Inl CouldNotCheckAttendance, tbl)
      else
        (case maybeSingle rows of
           None \<Rightarrow> (Inr CheckIn, tbl @ [new_session (fresh_id tbl) employeeId now])
         | Some todayRec \<Rightarrow>
             if check_out todayRec = None
             then (Inr CheckOut, update_where_id (att_id todayRec) (close_today now) tbl)
             else (Inl AlreadyCheckedOut, tbl)))"

text \<open>
  The message handler of the employee portal on a match whose employee row exists.
  \<^verbatim>\<open>openFingerprintScanner(mode)\<close> stores the requested action in \<^verbatim>\<open>scannerMode\<close>; the
  handler never reads it and calls \<^verbatim>\<open>markAttendanceForEmployeeId\<close> whatever was
  requested.
\<close>

definition onMessage ::
  "att_type \<Rightarrow> int \<Rightarrow> string \<Rightarrow> int \<Rightarrow> attendances \<Rightarrow> (att_error + att_type) \<times> attendances" where
  "onMessage scannerMode tz employeeId now tbl = markAttendanceForEmployeeId tz employeeId now tbl"

section \<open>Numbers of the scorer\<close>

text \<open>
  A JavaScript number is a real, an infinity or NaN. Finite arithmetic is exact (no
  rounding, no overflow) and zero has no sign: a zero divisor counts as \<open>+0\<close>, which is
  the only zero divisor \<^verbatim>\<open>computeSSIM\<close> can meet (\<open>N - 1\<close> and \<open>count\<close>).
\<close>

datatype jsnum = Fin real | PInf | NInf | NaN

fun js_neg :: "jsnum \<Rightarrow> jsnum" where
  "js_neg (Fin a) = Fin (- a)"
| "js_neg PInf = NInf"
| "js_neg NInf = PInf"
| "js_neg NaN = NaN"

fun js_add :: "jsnum \<Rightarrow> jsnum \<Rightarrow> jsnum" where
  "js_add NaN b = NaN"
| "js_add a NaN = NaN"
| "js_add (Fin a) (Fin b) = Fin (a + b)"
| "js_add PInf NInf = NaN"
| "js_add NInf PInf = NaN"
| "js_add PInf b = PInf"
| "js_add a PInf = PInf"
| "js_add NInf b = NInf"
| "js_add a NInf = NInf"

definition js_sub :: "jsnum \<Rightarrow> jsnum \<Rightarrow> jsnum" where
  "js_sub a b = js_add a (js_neg b)"

fun js_mul :: "jsnum \<Rightarrow> jsnum \<Rightarrow> jsnum" where
  "js_mul NaN b = NaN"
| "js_mul a NaN = NaN"
| "js_mul (Fin a) (Fin b) = Fin (a * b)"
| "js_mul (Fin a) PInf = (if a = 0 then NaN else if 0 < a then PInf else NInf)"
| "js_mul (Fin a) NInf = (if a = 0 then NaN else if 0 < a then NInf else PInf)"
| "js_mul PInf (Fin b) = (if b = 0 then NaN else if 0 < b then PInf else NInf)"
| "js_mul NInf (Fin b) = (if b = 0 then NaN else if 0 < b then NInf else PInf)"
| "js_mul PInf PInf = PInf"
| "js_mul NInf NInf = PInf"
| "js_mul PInf NInf = NInf"
| "js_mul NInf PInf = NInf"

text \<open>\<^verbatim>\<open>x ** 2\<close>\<close>

definition js_pow2 :: "jsnum \<Rightarrow> jsnum" where
  "js_pow2 x = js_mul x x"

fun js_div :: "jsnum \<Rightarrow> jsnum \<Rightarrow> jsnum" where
  "js_div NaN b = NaN"
| "js_div a NaN = NaN"
| "js_div (Fin a) (Fin b) =
     (if b = 0 then (if a = 0 then NaN else if 0 < a then PInf else NInf) else Fin (a / b))"
| "js_div (Fin a) PInf = Fin 0"
| "js_div (Fin a) NInf = Fin 0"
| "js_div PInf (Fin b) = (if 0 \<le> b then PInf else NInf)"
| "js_div NInf (Fin b) = (if 0 \<le> b then NInf else PInf)"
| "js_div PInf PInf = NaN"
| "js_div PInf NInf = NaN"
| "js_div NInf PInf = NaN"
| "js_div NInf NInf = NaN"

text \<open>\<^verbatim>\<open>a > b\<close> and \<^verbatim>\<open>a >= b\<close>: false whenever an operand is NaN.\<close>

fun js_gt :: "jsnum \<Rightarrow> jsnum \<Rightarrow> bool" where
  "js_gt NaN b = False"
| "js_gt a NaN = False"
| "js_gt (Fin a) (Fin b) = (b < a)"
| "js_gt a PInf = False"
| "js_gt PInf b = True"
| "js_gt NInf b = False"
| "js_gt (Fin a) NInf = True"

fun js_ge :: "jsnum \<Rightarrow> jsnum \<Rightarrow> bool" where
  "js_ge NaN b = False"
| "js_ge a NaN = False"
| "js_ge (Fin a) (Fin b) = (b \<le> a)"
| "js_ge PInf b = True"
| "js_ge a NInf = True"
| "js_ge NInf b = False"
| "js_ge (Fin a) PInf = False"

section \<open>The similarity scorer: \<^verbatim>\<open>computeSSIM\<close>\<close>

text \<open>
  An \<^verbatim>\<open>ImageData\<close>: width, height and the RGBA bytes, four per pixel, row by row.
\<close>

record ImageData =
  width :: nat
  height :: nat
  data :: "8 word list"

text \<open>An image whose byte array has the length its dimensions call for.\<close>

definition well_formed :: "ImageData \<Rightarrow> bool" where
  "well_formed img = (length (data img) = 4 * width img * height img)"

definition windowSize :: nat where
  "windowSize = 8"

definition ssim_C1 :: real where
  "ssim_C1 = 65025 / 10000"

definition ssim_C2 :: real where
  "ssim_C2 = 585225 / 10000"

text \<open>
  \<^verbatim>\<open>data[idx]\<close> used as a number: the byte, or \<^verbatim>\<open>undefined\<close> past the end of the array,
  which every arithmetic operator turns into NaN.
\<close>

definition px :: "8 word list \<Rightarrow> nat \<Rightarrow> jsnum" where
  "px d idx = (if idx < length d then Fin (real (unat (d ! idx))) else NaN)"

text \<open>
  The indices the two nested loops of \<^verbatim>\<open>getBlockStats(x, y)\<close> visit, in order:
  \<^verbatim>\<open>j\<close> from \<^verbatim>\<open>y\<close> while \<^verbatim>\<open>j < y + windowSize && j < h\<close>, \<^verbatim>\<open>i\<close> likewise from \<^verbatim>\<open>x\<close>,
  \<^verbatim>\<open>idx = (j * w + i) * 4\<close>.
\<close>

definition block_idx :: "nat \<Rightarrow> nat \<Rightarrow> nat \<Rightarrow> nat \<Rightarrow> nat list" where
  "block_idx w h x y =
     concat (map (\<lambda>j. map (\<lambda>i. (j * w + i) * 4) [x ..< min (x + windowSize) w])
                 [y ..< min (y + windowSize) h])"

text \<open>The body of the first pass and of the second pass, on their accumulators.\<close>

definition sum_pass ::
  "8 word list \<Rightarrow> 8 word list \<Rightarrow> nat \<Rightarrow> jsnum \<times> jsnum \<times> nat \<Rightarrow> jsnum \<times> jsnum \<times> nat" where
  "sum_pass data1 data2 idx acc =
     (case acc of (mu1, mu2, N) \<Rightarrow>
        (js_add mu1 (px data1 idx), js_add mu2 (px data2 idx), Suc N))"

definition var_pass ::
  "8 word list \<Rightarrow> 8 word list \<Rightarrow> jsnum \<Rightarrow> jsnum \<Rightarrow> nat \<Rightarrow>
   jsnum \<times> jsnum \<times> jsnum \<Rightarrow> jsnum \<times> jsnum \<times> jsnum" where
  "var_pass data1 data2 mu1 mu2 idx acc =
     (case acc of (sigma1Sq, sigma2Sq, sigma12) \<Rightarrow>
        (js_add sigma1Sq (js_pow2 (js_sub (px data1 idx) mu1)),
         js_add sigma2Sq (js_pow2 (js_sub (px data2 idx) mu2)),
         js_add sigma12 (js_mul (js_sub (px data1 idx) mu1) (js_sub (px data2 idx) mu2))))"

definition getBlockStats ::
  "nat \<Rightarrow> nat \<Rightarrow> 8 word list \<Rightarrow> 8 word list \<Rightarrow> nat \<Rightarrow> nat \<Rightarrow> jsnum" where
  "getBlockStats w h data1 data2 x y =
     (case fold (sum_pass data1 data2) (block_idx w h x y) (Fin 0, Fin 0, 0) of
        (sum1, sum2, N) \<Rightarrow>
          (let mu1 = js_div sum1 (Fin (real N));
               mu2 = js_div sum2 (Fin (real N))
           in case fold (var_pass data1 data2 mu1 mu2) (block_idx w h x y) (Fin 0, Fin 0, Fin 0) of
                (s1, s2, s12) \<Rightarrow>
                  (let sigma1Sq = js_div s1 (js_sub (Fin (real N)) (Fin 1));
                       sigma2Sq = js_div s2 (js_sub (Fin (real N)) (Fin 1));
                       sigma12 = js_div s12 (js_sub (Fin (real N)) (Fin 1));
                       numerator =
                         js_mul (js_add (js_mul (js_mul (Fin 2) mu1) mu2) (Fin ssim_C1))
                                (js_add (js_mul (Fin 2) sigma12) (Fin ssim_C2));
                       denominator =
                         js_mul (js_add (js_add (js_pow2 mu1) (js_pow2 mu2)) (Fin ssim_C1))
                                (js_add (js_add sigma1Sq sigma2Sq) (Fin ssim_C2))
                   in js_div numerator denominator)))"

text \<open>
  The values a loop \<^verbatim>\<open>for (let y = y0; y < h; y += windowSize)\<close> gives its variable.
\<close>

function block_origins :: "nat \<Rightarrow> nat \<Rightarrow> nat list" where
  "block_origins y h = (if y < h then y # block_origins (y + windowSize) h else [])"
  by pat_completeness auto
termination
  by (relation "measure (\<lambda>(y, h). h - y)") (auto simp: windowSize_def)

declare block_origins.simps [simp del]

definition blocks :: "nat \<Rightarrow> nat \<Rightarrow> (nat \<times> nat) list" where
  "blocks w h = concat (map (\<lambda>y. map (\<lambda>x. (x, y)) (block_origins 0 w)) (block_origins 0 h))"

definition block_step ::
  "nat \<Rightarrow> nat \<Rightarrow> 8 word list \<Rightarrow> 8 word list \<Rightarrow> nat \<times> nat \<Rightarrow> jsnum \<times> nat \<Rightarrow> jsnum \<times> nat" where
  "block_step w h data1 data2 xy acc =
     (case (xy, acc) of ((x, y), (tot, cnt)) \<Rightarrow>
        (js_add tot (getBlockStats w h data1 data2 x y), Suc cnt))"

text \<open>
  \<^verbatim>\<open>computeSSIM\<close> takes the grid from the first image only and compares no dimensions.
\<close>

definition computeSSIM :: "ImageData \<Rightarrow> ImageData \<Rightarrow> jsnum" where
  "computeSSIM imgData1 imgData2 =
     (let w = width imgData1; h = height imgData1;
          data1 = data imgData1; data2 = data imgData2
      in case fold (block_step w h data1 data2) (blocks w h) (Fin 0, 0) of
           (tot, cnt) \<Rightarrow> js_div tot (Fin (real cnt)))"

section \<open>The matcher: \<^verbatim>\<open>onSamplesAcquired\<close>\<close>

text \<open>
  An enrolled employee with the template already decoded (\<^verbatim>\<open>base64ToImageData\<close> is the
  browser's decoder), the page's mode, and the message posted to the parent window.
\<close>

record employee =
  emp_id :: string
  biometric_data :: ImageData

datatype scan_mode = attendance | register | other_mode

datatype scan_message = Match employee | NoMatch | Register

definition THRESHOLD :: real where
  "THRESHOLD = 36 / 100"

text \<open>
  The loop over \<^verbatim>\<open>employeeList\<close>; \<open>bestMatch\<close> is \<^verbatim>\<open>null\<close> (\<open>None\<close>) before the first
  employee.
\<close>

fun best_match_loop ::
  "ImageData \<Rightarrow> (employee \<times> jsnum) option \<Rightarrow> employee list \<Rightarrow> (employee \<times> jsnum) option" where
  "best_match_loop capture bestMatch [] = bestMatch"
| "best_match_loop capture bestMatch (emp # rest) =
     (let score = computeSSIM capture (biometric_data emp)
      in best_match_loop capture
           (case bestMatch of
              None \<Rightarrow> Some (emp, score)
            | Some b \<Rightarrow> if js_gt score (snd b) then Some (emp, score) else bestMatch)
           rest)"

text \<open>
  What one captured sample posts: nothing at all in attendance mode with an empty
  employee list (the first branch is guarded by \<^verbatim>\<open>employeeList.length > 0\<close> and the
  second is for registration).
\<close>

definition onSamplesAcquired ::
  "scan_mode \<Rightarrow> ImageData \<Rightarrow> employee list \<Rightarrow> scan_message option" where
  "onSamplesAcquired mode capture employeeList =
     (if mode = attendance \<and> employeeList \<noteq> [] then
        (case best_match_loop capture None employeeList of
           Some b \<Rightarrow> if js_ge (snd b) (Fin THRESHOLD) then Some (Match (fst b)) else Some NoMatch
         | None \<Rightarrow> Some NoMatch)
      else if mode = register then Some Register
      else None)"

text \<open>The scores of a roster against a capture, in roster order.\<close>

definition scores :: "ImageData \<Rightarrow> employee list \<Rightarrow> jsnum list" where
  "scores capture roster = map (\<lambda>emp. computeSSIM capture (biometric_data emp)) roster"

section \<open>Properties of the attendance table\<close>

lemma fresh_id_gt: "r \<in> set tbl \<Longrightarrow> att_id r < fresh_id tbl"
  by (induction tbl) (auto simp: fresh_id_def)

lemma maybeSingle_None_iff: "maybeSingle xs = None \<longleftrightarrow> length xs \<noteq> 1"
  by (cases xs rule: maybeSingle.cases) auto

lemma latest_None_iff: "latest xs = None \<longleftrightarrow> xs = []"
  by (induction xs) (auto split: option.splits)

lemma latest_in_set: "latest xs = Some m \<Longrightarrow> m \<in> set xs"
  by (induction xs arbitrary: m) (auto split: option.splits if_splits)

lemma open_rows_close_le:
  "length (open_rows e (update_where_id i (close_session t m) tbl)) \<le> length (open_rows e tbl)"
  by (induction tbl) (auto simp: open_rows_def update_where_id_def close_session_def)

lemma open_rows_append:
  "open_rows e (tbl @ [new_session i e' now]) =
     (if e = e' then open_rows e tbl @ [new_session i e' now] else open_rows e tbl)"
  by (simp add: open_rows_def new_session_def)

lemma update_fresh_row:
  assumes "att_id r = fresh_id tbl"
  shows "update_where_id (fresh_id tbl) f (tbl @ [r]) = tbl @ [f r]"
proof -
  have "map (\<lambda>r. if att_id r = fresh_id tbl then f r else r) tbl = map (\<lambda>r. r) tbl"
    by (rule map_cong) (use fresh_id_gt in fastforce)+
  with assms show ?thesis by (simp add: update_where_id_def)
qed

subsection \<open>Rounding to two decimals\<close>

lemma toFixed2_hundredths: "\<exists>k. toFixed2 x = real_of_int k / 100"
proof (cases "x < 0")
  case True
  then have "toFixed2 x = real_of_int (- \<lfloor>(- x) * 100 + 1 / 2\<rfloor>) / 100"
    by (simp add: toFixed2_def)
  then show ?thesis by blast
next
  case False
  then have "toFixed2 x = real_of_int \<lfloor>x * 100 + 1 / 2\<rfloor> / 100"
    by (simp add: toFixed2_def)
  then show ?thesis by blast
qed

lemma round_half_near:
  fixes y :: real
  shows "\<bar>real_of_int \<lfloor>y * 100 + 1 / 2\<rfloor> / 100 - y\<bar> \<le> 1 / 200"
proof -
  define k where "k = \<lfloor>y * 100 + 1 / 2\<rfloor>"
  have "real_of_int k \<le> y * 100 + 1 / 2" and "y * 100 + 1 / 2 < real_of_int k + 1"
    unfolding k_def by linarith+
  then have "\<bar>real_of_int k / 100 - y\<bar> \<le> 1 / 200"
    by linarith
  then show ?thesis by (simp only: k_def)
qed

lemma toFixed2_near: "\<bar>toFixed2 x - x\<bar> \<le> 1 / 200"
proof (cases "x < 0")
  case True
  have "\<bar>toFixed2 x - x\<bar> = \<bar>real_of_int \<lfloor>(- x) * 100 + 1 / 2\<rfloor> / 100 - (- x)\<bar>"
    using True by (simp add: toFixed2_def abs_minus_commute del: mult_minus_left)
  then show ?thesis using round_half_near [of "- x"] by simp
next
  case False
  then show ?thesis using round_half_near [of x] by (simp add: toFixed2_def)
qed

subsection \<open>What every operation keeps\<close>

lemma step_one_open:
  assumes "length (open_rows e tbl) \<le> 1"
  shows "length (open_rows e (step rq tbl)) \<le> 1"
proof -
  obtain e' ty now where rq: "rq = (e', ty, now)" by (cases rq)
  show ?thesis
  proof (cases ty)
    case CheckIn
    show ?thesis
    proof (cases "maybeSingle (open_rows e' tbl)")
      case None
      then have "e = e' \<Longrightarrow> open_rows e tbl = []"
        using assms by (cases "open_rows e tbl") (auto simp: maybeSingle_None_iff)
      with None assms show ?thesis
        by (auto simp: rq CheckIn step_def markAttendance_def open_rows_append)
    next
      case (Some a)
      with assms show ?thesis
        by (simp add: rq CheckIn step_def markAttendance_def)
    qed
  next
    case CheckOut
    show ?thesis
      using assms open_rows_close_le [of e _ now _ tbl]
      by (auto simp: rq CheckOut step_def markAttendance_def split: option.splits intro: order_trans)
  qed
qed

lemma step_consistent:
  assumes "\<forall>r\<in>set tbl. (status r = checked_in) = (check_out r = None)"
  shows "\<forall>r\<in>set (step rq tbl). (status r = checked_in) = (check_out r = None)"
proof -
  obtain e' ty now where rq: "rq = (e', ty, now)" by (cases rq)
  show ?thesis
    using assms
    by (cases ty)
       (auto simp: rq step_def markAttendance_def new_session_def close_session_def
          update_where_id_def split: option.splits)
qed

lemma run_one_open_from:
  "length (open_rows e tbl) \<le> 1 \<Longrightarrow> length (open_rows e (run rqs tbl)) \<le> 1"
  unfolding run_def
proof (induction rqs arbitrary: tbl)
  case Nil
  then show ?case by simp
next
  case (Cons rq rqs)
  from Cons.IH [OF step_one_open [OF Cons.prems]] show ?case by simp
qed

lemma run_consistent_from:
  "\<forall>r\<in>set tbl. (status r = checked_in) = (check_out r = None) \<Longrightarrow>
   \<forall>r\<in>set (run rqs tbl). (status r = checked_in) = (check_out r = None)"
  unfolding run_def
proof (induction rqs arbitrary: tbl)
  case Nil
  then show ?case by simp
next
  case (Cons rq rqs)
  from Cons.IH [OF step_consistent [OF Cons.prems]] show ?case by simp
qed

lemma open_sessions_of_eq_open_rows:
  "\<forall>r\<in>set tbl. (status r = checked_in) = (check_out r = None) \<Longrightarrow>
   open_sessions_of e tbl = open_rows e tbl"
  unfolding open_sessions_of_def open_rows_def
  by (rule filter_cong) auto

lemma reachable_open_sessions_of: "open_sessions_of e (run rqs []) = open_rows e (run rqs [])"
  by (rule open_sessions_of_eq_open_rows) (rule run_consistent_from, simp)

lemma reachable_one_open: "length (open_rows e (run rqs [])) \<le> 1"
  by (rule run_one_open_from) (simp add: open_rows_def)

lemma run_snoc: "run (rqs @ [rq]) tbl = step rq (run rqs tbl)"
  by (simp add: run_def)

subsection \<open>Check-in followed by check-out\<close>

lemma checkin_when_none_open:
  assumes "open_rows p tbl = []"
  shows "markAttendance p CheckIn t1 tbl = (Inr True, tbl @ [new_session (fresh_id tbl) p t1])"
  using assms by (simp add: markAttendance_def)

lemma checkout_after_checkin:
  assumes "open_rows p tbl = []"
  shows "markAttendance p CheckOut t2 (tbl @ [new_session (fresh_id tbl) p t1]) =
           (Inr True, tbl @ [close_session t2 (diff_minute t2 t1) (new_session (fresh_id tbl) p t1)])"
proof -
  have "open_rows p (tbl @ [new_session (fresh_id tbl) p t1]) = [new_session (fresh_id tbl) p t1]"
    using assms by (simp add: open_rows_append)
  moreover have "att_id (new_session (fresh_id tbl) p t1) = fresh_id tbl"
    and "check_in (new_session (fresh_id tbl) p t1) = t1"
    by (simp_all add: new_session_def)
  ultimately show ?thesis
    by (simp add: markAttendance_def update_fresh_row)
qed

lemma open_rows_after_close:
  assumes "open_rows p tbl = []"
  shows "open_rows p (tbl @ [close_session t2 m r]) = []"
  using assms by (simp add: open_rows_def close_session_def)

lemma run_in_out:
  assumes "open_rows p tbl = []"
  shows "run [(p, CheckIn, t1), (p, CheckOut, t2)] tbl =
           tbl @ [close_session t2 (diff_minute t2 t1) (new_session (fresh_id tbl) p t1)]"
  by (simp add: run_def step_def checkin_when_none_open [OF assms] checkout_after_checkin [OF assms])

lemma checkout_when_none_open:
  assumes "open_rows p tbl = []"
  shows "markAttendance p CheckOut now tbl = (Inl NoActiveSession, tbl)"
  using assms by (simp add: markAttendance_def)

subsection \<open>The two invariants\<close>

lemma invariant_I1_iff:
  "invariant_I1 tz tbl \<longleftrightarrow> (\<forall>p d. length (open_sessions_on tz p d tbl) \<le> 1)"
proof
  assume inv: "invariant_I1 tz tbl"
  show "\<forall>p d. length (open_sessions_on tz p d tbl) \<le> 1"
  proof (intro allI)
    fix p d
    show "length (open_sessions_on tz p d tbl) \<le> 1"
    proof (cases "open_sessions_on tz p d tbl")
      case Nil
      then show ?thesis by simp
    next
      case (Cons r rest)
      then have "r \<in> set (open_sessions_on tz p d tbl)" by simp
      then have r: "r \<in> set tbl" "employee_id r = p" "dayKey tz (check_in r) = d"
        by (auto simp: open_sessions_on_def open_sessions_of_def)
      with inv show ?thesis by (auto simp: invariant_I1_def list_all_iff)
    qed
  qed
next
  assume "\<forall>p d. length (open_sessions_on tz p d tbl) \<le> 1"
  then show "invariant_I1 tz tbl" by (simp add: invariant_I1_def list_all_iff)
qed




lemma step_distinct_ids:
  assumes "distinct (map att_id tbl)"
  shows "distinct (map att_id (step rq tbl))"
proof -
  obtain e ty now where rq: "rq = (e, ty, now)" by (cases rq)
  have upd: "map att_id (update_where_id i (close_session t m) tbl) = map att_id tbl" for i t m
    by (simp add: update_where_id_def close_session_def comp_def)
  have fresh: "fresh_id tbl \<notin> att_id ` set tbl"
    using fresh_id_gt [of _ tbl] by fastforce
  show ?thesis
  proof (cases ty)
    case CheckIn
    with assms fresh show ?thesis
      by (simp add: rq step_def markAttendance_def new_session_def split: option.splits)
  next
    case CheckOut
    with assms upd show ?thesis
      by (simp add: rq step_def markAttendance_def split: option.splits)
  qed
qed

lemma reachable_distinct_ids: "distinct (map att_id (run rqs []))"
proof -
  have "distinct (map att_id tbl) \<Longrightarrow> distinct (map att_id (fold step rqs tbl))" for tbl
  proof (induction rqs arbitrary: tbl)
    case Nil
    then show ?case by simp
  next
    case (Cons rq rqs)
    from Cons.IH [OF step_distinct_ids [OF Cons.prems]] show ?case by simp
  qed
  from this [of "[]"] show ?thesis by (simp add: run_def)
qed

lemma update_one_row:
  assumes "distinct (map att_id tbl)" and "r \<in> set tbl"
  shows "update_where_id (att_id r) f tbl = map (\<lambda>x. if x = r then f x else x) tbl"
proof -
  from assms(1) have "inj_on att_id (set tbl)" by (simp add: distinct_map)
  with assms(2) have "\<forall>x\<in>set tbl. (att_id x = att_id r) = (x = r)"
    by (auto dest: inj_onD)
  then show ?thesis by (simp add: update_where_id_def cong: map_cong)
qed

lemma checkout_closes_open_session:
  assumes "r \<in> set (open_sessions_of p (run rqs []))"
  shows "markAttendance p CheckOut now (run rqs []) =
           (Inr True,
            map (\<lambda>x. if x = r then close_session now (diff_minute now (check_in r)) x else x)
                (run rqs []))"
proof -
  from assms have mem: "r \<in> set (open_rows p (run rqs []))"
    by (simp add: reachable_open_sessions_of)
  with reachable_one_open [of p rqs] have one: "open_rows p (run rqs []) = [r]"
    by (cases "open_rows p (run rqs [])") auto
  from mem have "r \<in> set (run rqs [])" by (simp add: open_rows_def)
  with one show ?thesis
    by (simp add: markAttendance_def update_one_row [OF reachable_distinct_ids])
qed

section \<open>The claims about the session manager\<close>




text \<open>
  Claim C2, as stated, fails: a person who checked in on one day and never checked out
  has no OPEN session on the next day, and the check-in of the next day is rejected
  with \<^verbatim>\<open>Already checked in\<close> all the same.
\<close>

theorem checkin_next_day_rejected:
  "open_sessions_on 0 ''E1'' (dayKey 0 118800000) (run [(''E1'', CheckIn, 32400000)] []) = [] \<and>
   fst (markAttendance ''E1'' CheckIn 118800000 (run [(''E1'', CheckIn, 32400000)] []))
     = Inl AlreadyCheckedIn"
  by (simp add: run_def step_def markAttendance_def open_rows_def new_session_def fresh_id_def
      open_sessions_on_def open_sessions_of_def dayKey_def)

text \<open>
  Claim C2, amended. In every table built by check-in and check-out requests, a check-in
  is rejected with \<^verbatim>\<open>Already checked in\<close> exactly when the person has an OPEN session of
  any day, and then the table is unchanged; otherwise it succeeds and appends one new
  session with status OPEN whose check-in time is the clock reading.
\<close>

theorem checkin_rejected_iff_open_any_day:
  "markAttendance personId CheckIn now (run rqs []) =
     (if open_sessions_of personId (run rqs []) = []
      then (Inr True, run rqs [] @ [new_session (fresh_id (run rqs [])) personId now])
      else (Inl AlreadyCheckedIn, run rqs []))"
proof (cases "open_rows personId (run rqs [])")
  case Nil
  then show ?thesis
    by (simp add: reachable_open_sessions_of checkin_when_none_open)
next
  case (Cons r rest)
  with reachable_one_open [of personId rqs] have "open_rows personId (run rqs []) = [r]"
    by simp
  then show ?thesis
    by (simp add: reachable_open_sessions_of markAttendance_def)
qed

text \<open>
  Claim C3, as stated, fails: a check-in at 09:00:00.000 and a check-out at 17:29:59.999
  record 8.48 hours (509 whole minutes), while the exact difference rounds to 8.50.
\<close>

theorem total_hours_not_exact_difference:
  "map total_hours (run [(''E1'', CheckIn, 32400000), (''E1'', CheckOut, 62999999)] [])
     = [Some (212 / 25)] \<and>
   exact_hours_2dp 32400000 62999999 = 17 / 2"
  by (simp add: run_def step_def markAttendance_def open_rows_def new_session_def fresh_id_def
      close_session_def update_where_id_def diff_minute_def toFixed2_def exact_hours_2dp_def)

text \<open>
  Claim C3, amended. For a person with no OPEN session, a check-in at \<open>t1\<close> followed by a
  check-out at \<open>t2\<close> both succeed and leave one more session, CLOSED, whose hours are the
  whole minutes between the two instants (the fraction of a minute dropped), divided by
  60 and rounded to two decimals.
\<close>

theorem checkin_checkout_total_hours:
  assumes "open_sessions_of personId (run rqs []) = []"
  shows "fst (markAttendance personId CheckIn t1 (run rqs [])) = Inr True \<and>
         fst (markAttendance personId CheckOut t2
                (snd (markAttendance personId CheckIn t1 (run rqs [])))) = Inr True \<and>
         run [(personId, CheckIn, t1), (personId, CheckOut, t2)] (run rqs []) =
           run rqs [] @
           [\<lparr>att_id = fresh_id (run rqs []), employee_id = personId, check_in = t1,
             check_out = Some t2,
             total_hours = Some (toFixed2 (real_of_int (diff_minute t2 t1) / 60)),
             status = checked_out\<rparr>]"
proof -
  from assms have none: "open_rows personId (run rqs []) = []"
    by (simp add: reachable_open_sessions_of)
  have row: "close_session t2 (diff_minute t2 t1) (new_session (fresh_id (run rqs [])) personId t1) =
      \<lparr>att_id = fresh_id (run rqs []), employee_id = personId, check_in = t1,
        check_out = Some t2,
        total_hours = Some (toFixed2 (real_of_int (diff_minute t2 t1) / 60)),
        status = checked_out\<rparr>"
    by (simp add: close_session_def new_session_def)
  have "fst (markAttendance personId CheckIn t1 (run rqs [])) = Inr True"
    by (simp add: checkin_when_none_open [OF none])
  moreover have "fst (markAttendance personId CheckOut t2
                (snd (markAttendance personId CheckIn t1 (run rqs [])))) = Inr True"
    by (simp add: checkin_when_none_open [OF none] checkout_after_checkin [OF none])
  moreover note run_in_out [OF none, of t1 t2, unfolded row]
  ultimately show ?thesis by simp
qed

theorem checkin_checkout_total_hours_witness:
  "open_sessions_of ''E1'' (run [] []) = [] \<and>
   run [(''E1'', CheckIn, 32400000), (''E1'', CheckOut, 63000000)] (run [] []) =
     [\<lparr>att_id = 0, employee_id = ''E1'', check_in = 32400000, check_out = Some 63000000,
       total_hours = Some (17 / 2), status = checked_out\<rparr>]"
  using checkin_checkout_total_hours [of "''E1''" "[]" 32400000 63000000]
  by (simp add: run_def open_sessions_of_def fresh_id_def diff_minute_def toFixed2_def)

text \<open>
  Claim C4, as stated, fails twice. With an OPEN session left from an earlier day and none
  on the day of the request, \<^verbatim>\<open>markAttendance\<close> accepts the check-out and closes the
  earlier session. And in the employee portal a scan requested as a check-out, for a
  person with no record today, checks the person in.
\<close>

theorem checkout_closes_earlier_day:
  "open_sessions_on 0 ''E1'' (dayKey 0 118800000) (run [(''E1'', CheckIn, 32400000)] []) = [] \<and>
   markAttendance ''E1'' CheckOut 118800000 (run [(''E1'', CheckIn, 32400000)] []) =
     (Inr True,
      [\<lparr>att_id = 0, employee_id = ''E1'', check_in = 32400000, check_out = Some 118800000,
        total_hours = Some 24, status = checked_out\<rparr>]) \<and>
   open_sessions_on 0 ''E1'' (dayKey 0 63000000) [] = [] \<and>
   onMessage CheckOut 0 ''E1'' 63000000 [] =
     (Inr CheckIn,
      [\<lparr>att_id = 0, employee_id = ''E1'', check_in = 63000000, check_out = None,
        total_hours = None, status = checked_in\<rparr>])"
  by (simp add: run_def step_def markAttendance_def open_rows_def new_session_def fresh_id_def
      open_sessions_on_def open_sessions_of_def dayKey_def
      close_session_def update_where_id_def diff_minute_def toFixed2_def
      onMessage_def markAttendanceForEmployeeId_def today_rows_def maybeSingle_error_def)

text \<open>
  Claim C4, amended. In every table built by check-in and check-out requests, a check-out
  request to \<^verbatim>\<open>markAttendance\<close> for a person with no OPEN session of any day is rejected
  with \<^verbatim>\<open>No active check-in session\<close> and returns the table as it was (nothing closed,
  no session created); for a person with an OPEN session, of whatever day, it succeeds
  and closes exactly that session, leaving every other row as it was. The employee
  portal's handler is different: whatever action was requested, a scan of a person with
  no record today appends a new OPEN session.
\<close>

theorem checkout_without_open_session_rejected:
  "(open_sessions_of personId (run rqs []) = [] \<longrightarrow>
      markAttendance personId CheckOut now (run rqs []) = (Inl NoActiveSession, run rqs [])) \<and>
   (r \<in> set (open_sessions_of personId (run rqs [])) \<longrightarrow>
      markAttendance personId CheckOut now (run rqs []) =
        (Inr True,
         map (\<lambda>x. if x = r then close_session now (diff_minute now (check_in r)) x else x)
             (run rqs []))) \<and>
   (today_rows tz personId now tbl = [] \<longrightarrow>
      onMessage scannerMode tz personId now tbl =
        (Inr CheckIn, tbl @ [new_session (fresh_id tbl) personId now]))"
proof (intro conjI impI)
  assume "open_sessions_of personId (run rqs []) = []"
  then show "markAttendance personId CheckOut now (run rqs []) = (Inl NoActiveSession, run rqs [])"
    by (simp add: reachable_open_sessions_of checkout_when_none_open)
next
  assume "r \<in> set (open_sessions_of personId (run rqs []))"
  then show "markAttendance personId CheckOut now (run rqs []) =
        (Inr True,
         map (\<lambda>x. if x = r then close_session now (diff_minute now (check_in r)) x else x)
             (run rqs []))"
    by (rule checkout_closes_open_session)
next
  assume "today_rows tz personId now tbl = []"
  then show "onMessage scannerMode tz personId now tbl =
        (Inr CheckIn, tbl @ [new_session (fresh_id tbl) personId now])"
    by (simp add: onMessage_def markAttendanceForEmployeeId_def maybeSingle_error_def)
qed

theorem checkout_without_open_session_rejected_witness:
  "open_sessions_of ''E1'' (run [(''E2'', CheckIn, 32400000)] []) = [] \<and>
   markAttendance ''E1'' CheckOut 63000000 (run [(''E2'', CheckIn, 32400000)] []) =
     (Inl NoActiveSession,
      [\<lparr>att_id = 0, employee_id = ''E2'', check_in = 32400000, check_out = None,
        total_hours = None, status = checked_in\<rparr>]) \<and>
   new_session 0 ''E2'' 32400000 \<in> set (open_sessions_of ''E2'' (run [(''E2'', CheckIn, 32400000)] [])) \<and>
   markAttendance ''E2'' CheckOut 122400000 (run [(''E2'', CheckIn, 32400000)] []) =
     (Inr True,
      [\<lparr>att_id = 0, employee_id = ''E2'', check_in = 32400000, check_out = Some 122400000,
        total_hours = Some 25, status = checked_out\<rparr>]) \<and>
   today_rows 0 ''E1'' 63000000 [new_session 0 ''E2'' 32400000] = [] \<and>
   onMessage CheckOut 0 ''E1'' 63000000 [new_session 0 ''E2'' 32400000] =
     (Inr CheckIn, [new_session 0 ''E2'' 32400000, new_session 1 ''E1'' 63000000])"
proof -
  have r: "run [(''E2'', CheckIn, 32400000)] [] = [new_session 0 ''E2'' 32400000]"
    by (simp add: run_def step_def markAttendance_def open_rows_def fresh_id_def)
  have h1: "open_sessions_of ''E1'' (run [(''E2'', CheckIn, 32400000)] []) = []"
    by (simp add: r open_sessions_of_def new_session_def)
  have h2: "new_session 0 ''E2'' 32400000 \<in>
      set (open_sessions_of ''E2'' (run [(''E2'', CheckIn, 32400000)] []))"
    by (simp add: r open_sessions_of_def new_session_def)
  have h3: "today_rows 0 ''E1'' 63000000 [new_session 0 ''E2'' 32400000] = []"
    by (simp add: today_rows_def new_session_def)
  have f: "fresh_id [new_session 0 ''E2'' 32400000] = 1"
    by (simp add: fresh_id_def new_session_def)
  from checkout_without_open_session_rejected [where personId = "''E1''" and rqs = "[(''E2'', CheckIn, 32400000)]"
        and now = 63000000 and tz = 0 and scannerMode = CheckOut and tbl = "[new_session 0 ''E2'' 32400000]"]
    checkout_without_open_session_rejected [where personId = "''E2''" and rqs = "[(''E2'', CheckIn, 32400000)]"
        and now = 122400000 and r = "new_session 0 ''E2'' 32400000"]
    h1 h2 h3
  show ?thesis
    by (simp add: r f) (simp add: new_session_def close_session_def diff_minute_def toFixed2_def)
qed

section \<open>Properties of the scan toggle\<close>

lemma today_rows_same_day:
  "startOfDayIso tz t' = startOfDayIso tz t \<Longrightarrow> today_rows tz p t' tbl = today_rows tz p t tbl"
  by (simp add: today_rows_def endOfDayIso_def)

lemma startOfDayIso_le: "startOfDayIso tz t \<le> t"
  by (simp add: startOfDayIso_def)

lemma toggle_three_scans:
  assumes none: "today_rows tz p t1 tbl = []"
    and d2: "startOfDayIso tz t2 = startOfDayIso tz t1"
    and d3: "startOfDayIso tz t3 = startOfDayIso tz t1"
    and t1: "t1 < endOfDayIso tz t1"
  shows "markAttendanceForEmployeeId tz p t1 tbl =
           (Inr CheckIn, tbl @ [new_session (fresh_id tbl) p t1])"
    and "markAttendanceForEmployeeId tz p t2 (tbl @ [new_session (fresh_id tbl) p t1]) =
           (Inr CheckOut, tbl @ [close_today t2 (new_session (fresh_id tbl) p t1)])"
    and "markAttendanceForEmployeeId tz p t3 (tbl @ [close_today t2 (new_session (fresh_id tbl) p t1)]) =
           (Inl AlreadyCheckedOut, tbl @ [close_today t2 (new_session (fresh_id tbl) p t1)])"
proof -
  let ?new = "new_session (fresh_id tbl) p t1"
  show "markAttendanceForEmployeeId tz p t1 tbl = (Inr CheckIn, tbl @ [?new])"
    by (simp add: markAttendanceForEmployeeId_def none maybeSingle_error_def)
  have new: "att_id ?new = fresh_id tbl" "check_out ?new = None" "employee_id ?new = p"
    "check_in ?new = t1"
    by (simp_all add: new_session_def)
  have rows2: "today_rows tz p t1 (tbl @ [?new]) = [?new]"
    using none t1 startOfDayIso_le [of tz t1] by (simp add: today_rows_def new)
  show "markAttendanceForEmployeeId tz p t2 (tbl @ [?new]) =
          (Inr CheckOut, tbl @ [close_today t2 ?new])"
    by (simp add: markAttendanceForEmployeeId_def today_rows_same_day [OF d2] rows2
        maybeSingle_error_def new update_fresh_row)
  have closed: "check_out (close_today t2 ?new) = Some t2" "employee_id (close_today t2 ?new) = p"
    "check_in (close_today t2 ?new) = t1"
    by (simp_all add: close_today_def new_session_def)
  have rows3: "today_rows tz p t1 (tbl @ [close_today t2 ?new]) = [close_today t2 ?new]"
    using none t1 startOfDayIso_le [of tz t1] by (simp add: today_rows_def closed)
  show "markAttendanceForEmployeeId tz p t3 (tbl @ [close_today t2 ?new]) =
          (Inl AlreadyCheckedOut, tbl @ [close_today t2 ?new])"
    by (simp add: markAttendanceForEmployeeId_def today_rows_same_day [OF d3] rows3
        maybeSingle_error_def closed)
qed


text \<open>
  Claim C5, as stated, fails: after a check-in at 09:00 and a check-out at 17:30 a further
  check-out request to \<^verbatim>\<open>markAttendance\<close> is rejected, but as
  \<^verbatim>\<open>No active check-in session\<close>, not as already checked out.
\<close>

theorem repeated_checkout_reports_no_active_session:
  "fst (markAttendance ''E1'' CheckOut 64800000
          (run [(''E1'', CheckIn, 32400000), (''E1'', CheckOut, 63000000)] []))
     = Inl NoActiveSession \<and>
   fst (markAttendance ''E1'' CheckOut 64800000
          (run [(''E1'', CheckIn, 32400000), (''E1'', CheckOut, 63000000)] []))
     \<noteq> Inl AlreadyCheckedOut"
  by (simp add: run_def step_def markAttendance_def open_rows_def new_session_def fresh_id_def
      close_session_def update_where_id_def)

text \<open>
  Claim C5, amended. Once check-in and check-out have closed a person's session, a further
  check-out request is rejected with \<^verbatim>\<open>No active check-in session\<close> and the table
  stays as it was (no second closure, no new record). The rejection that names the closed
  state belongs to the scan toggle: of three scans of one person within one day, the
  first checks in, the second checks out, and the third reports
  \<^verbatim>\<open>Already checked out\<close> and changes nothing (the check-in must not fall on the last
  millisecond of the day, which the toggle's query for today's record leaves out).
\<close>

theorem repeated_checkout_rejected:
  "(open_sessions_of personId (run rqs []) = [] \<longrightarrow>
      markAttendance personId CheckOut t3
        (run [(personId, CheckIn, t1), (personId, CheckOut, t2)] (run rqs [])) =
      (Inl NoActiveSession, run [(personId, CheckIn, t1), (personId, CheckOut, t2)] (run rqs []))) \<and>
   (today_rows tz personId t1 tbl = [] \<and> t1 < endOfDayIso tz t1 \<and>
    startOfDayIso tz t2 = startOfDayIso tz t1 \<and> startOfDayIso tz t3 = startOfDayIso tz t1 \<longrightarrow>
      fst (markAttendanceForEmployeeId tz personId t1 tbl) = Inr CheckIn \<and>
      fst (markAttendanceForEmployeeId tz personId t2
             (snd (markAttendanceForEmployeeId tz personId t1 tbl))) = Inr CheckOut \<and>
      markAttendanceForEmployeeId tz personId t3
        (snd (markAttendanceForEmployeeId tz personId t2
               (snd (markAttendanceForEmployeeId tz personId t1 tbl)))) =
      (Inl AlreadyCheckedOut,
       snd (markAttendanceForEmployeeId tz personId t2
              (snd (markAttendanceForEmployeeId tz personId t1 tbl)))))"
proof (intro conjI impI)
  assume "open_sessions_of personId (run rqs []) = []"
  then have none: "open_rows personId (run rqs []) = []"
    by (simp add: reachable_open_sessions_of)
  show "markAttendance personId CheckOut t3
        (run [(personId, CheckIn, t1), (personId, CheckOut, t2)] (run rqs [])) =
      (Inl NoActiveSession, run [(personId, CheckIn, t1), (personId, CheckOut, t2)] (run rqs []))"
    unfolding run_in_out [OF none]
    by (rule checkout_when_none_open) (rule open_rows_after_close [OF none])
next
  assume a: "today_rows tz personId t1 tbl = [] \<and> t1 < endOfDayIso tz t1 \<and>
    startOfDayIso tz t2 = startOfDayIso tz t1 \<and> startOfDayIso tz t3 = startOfDayIso tz t1"
  then have h: "today_rows tz personId t1 tbl = []" "startOfDayIso tz t2 = startOfDayIso tz t1"
    "startOfDayIso tz t3 = startOfDayIso tz t1" "t1 < endOfDayIso tz t1"
    by simp_all
  note three = toggle_three_scans [OF h]
  show "fst (markAttendanceForEmployeeId tz personId t1 tbl) = Inr CheckIn"
    by (simp add: three(1))
  show "fst (markAttendanceForEmployeeId tz personId t2
             (snd (markAttendanceForEmployeeId tz personId t1 tbl))) = Inr CheckOut"
    by (simp add: three(1) three(2))
  show "markAttendanceForEmployeeId tz personId t3
        (snd (markAttendanceForEmployeeId tz personId t2
               (snd (markAttendanceForEmployeeId tz personId t1 tbl)))) =
      (Inl AlreadyCheckedOut,
       snd (markAttendanceForEmployeeId tz personId t2
              (snd (markAttendanceForEmployeeId tz personId t1 tbl))))"
    by (simp add: three(1) three(2) three(3))
qed

theorem repeated_checkout_rejected_witness:
  "open_sessions_of ''E1'' (run [] []) = [] \<and>
   today_rows 0 ''E1'' 32400000 [] = [] \<and> 32400000 < endOfDayIso 0 32400000 \<and>
   startOfDayIso 0 63000000 = startOfDayIso 0 32400000 \<and>
   startOfDayIso 0 64800000 = startOfDayIso 0 32400000 \<and>
   markAttendance ''E1'' CheckOut 64800000
     (run [(''E1'', CheckIn, 32400000), (''E1'', CheckOut, 63000000)] (run [] [])) =
     (Inl NoActiveSession,
      [\<lparr>att_id = 0, employee_id = ''E1'', check_in = 32400000, check_out = Some 63000000,
        total_hours = Some (17 / 2), status = checked_out\<rparr>]) \<and>
   fst (markAttendanceForEmployeeId 0 ''E1'' 64800000
     (snd (markAttendanceForEmployeeId 0 ''E1'' 63000000
            (snd (markAttendanceForEmployeeId 0 ''E1'' 32400000 []))))) = Inl AlreadyCheckedOut"
proof -
  have h1: "open_sessions_of ''E1'' (run [] []) = []"
    by (simp add: run_def open_sessions_of_def)
  have h2: "today_rows 0 ''E1'' 32400000 [] = [] \<and> 32400000 < endOfDayIso 0 32400000 \<and>
      startOfDayIso 0 63000000 = startOfDayIso 0 32400000 \<and>
      startOfDayIso 0 64800000 = startOfDayIso 0 32400000"
    by (simp add: today_rows_def endOfDayIso_def startOfDayIso_def)
  have r: "run [(''E1'', CheckIn, 32400000), (''E1'', CheckOut, 63000000)] (run [] []) =
      [\<lparr>att_id = 0, employee_id = ''E1'', check_in = 32400000, check_out = Some 63000000,
        total_hours = Some (17 / 2), status = checked_out\<rparr>]"
    by (simp add: run_def step_def markAttendance_def open_rows_def new_session_def fresh_id_def
        close_session_def update_where_id_def diff_minute_def toFixed2_def)
  from repeated_checkout_rejected [of "''E1''" "[]" 64800000 32400000 63000000 0 "[]"] h1 h2 r
  show ?thesis by simp
qed

section \<open>Properties of the numbers\<close>

lemma js_add_NaN [simp]: "js_add a NaN = NaN"
  by (cases a) simp_all

lemma js_mul_NaN [simp]: "js_mul a NaN = NaN"
  by (cases a) simp_all

lemma js_div_NaN [simp]: "js_div a NaN = NaN"
  by (cases a) simp_all

lemma js_sub_NaN [simp]: "js_sub NaN b = NaN" "js_sub a NaN = NaN"
  by (simp_all add: js_sub_def)

lemma js_gt_NaN [simp]: "js_gt a NaN = False"
  by (cases a) simp_all

lemma js_ge_NaN [simp]: "js_ge a NaN = False"
  by (cases a) simp_all

lemma js_gt_irrefl: "\<not> js_gt a a"
  by (cases a) simp_all

lemma js_gt_trans: "js_gt a b \<Longrightarrow> js_gt b c \<Longrightarrow> js_gt a c"
  by (cases a; cases b; cases c) simp_all

lemma js_gt_asym: "js_gt a b \<Longrightarrow> \<not> js_gt b a"
  by (cases a; cases b) simp_all

lemma js_gt_not_gt_trans: "js_gt a b \<Longrightarrow> \<not> js_gt c b \<Longrightarrow> c \<noteq> NaN \<Longrightarrow> js_gt a c"
  by (cases a; cases b; cases c) simp_all

section \<open>Properties of the scorer\<close>

lemma fold_add_NaN: "fold (\<lambda>i m. js_add m (f i)) xs NaN = NaN"
  by (induction xs) simp_all

lemma fold_add_has_NaN:
  "i \<in> set xs \<Longrightarrow> f i = NaN \<Longrightarrow> fold (\<lambda>i m. js_add m (f i)) xs a = NaN"
  by (induction xs arbitrary: a) (auto simp: fold_add_NaN)

lemma fold_sum_pass:
  "fold (sum_pass d1 d2) xs (m1, m2, n) =
     (fold (\<lambda>i m. js_add m (px d1 i)) xs m1, fold (\<lambda>i m. js_add m (px d2 i)) xs m2,
      n + length xs)"
  by (induction xs arbitrary: m1 m2 n) (simp_all add: sum_pass_def)

lemma fold_var_pass:
  "fold (var_pass d1 d2 mu1 mu2) xs (a, b, c) =
     (fold (\<lambda>i s. js_add s (js_pow2 (js_sub (px d1 i) mu1))) xs a,
      fold (\<lambda>i s. js_add s (js_pow2 (js_sub (px d2 i) mu2))) xs b,
      fold (\<lambda>i s. js_add s (js_mul (js_sub (px d1 i) mu1) (js_sub (px d2 i) mu2))) xs c)"
  by (induction xs arbitrary: a b c) (simp_all add: var_pass_def)

lemma fold_block_step:
  "fold (block_step w h d1 d2) bs (t, c) =
     (fold (\<lambda>xy m. js_add m (getBlockStats w h d1 d2 (fst xy) (snd xy))) bs t, c + length bs)"
  by (induction bs arbitrary: t c) (simp_all add: block_step_def split: prod.splits)

lemma getBlockStats_NaN_data2:
  assumes "idx \<in> set (block_idx w h x y)" and "px d2 idx = NaN"
  shows "getBlockStats w h d1 d2 x y = NaN"
proof -
  have "fold (\<lambda>i m. js_add m (px d2 i)) (block_idx w h x y) (Fin 0) = NaN"
    using assms by (rule fold_add_has_NaN)
  then show ?thesis
    by (simp add: getBlockStats_def fold_sum_pass fold_var_pass Let_def)
qed

lemma getBlockStats_single_pixel:
  assumes "block_idx w h x y = [idx]"
  shows "getBlockStats w h d1 d2 x y = NaN"
proof -
  have "js_div (js_add (Fin 0) (js_mul (js_sub p (js_div (js_add (Fin 0) p) (Fin 1)))
                                     (js_sub q (js_div (js_add (Fin 0) q) (Fin 1)))))
               (js_sub (Fin 1) (Fin 1)) = NaN" for p q
    by (cases p; cases q) (simp_all add: js_sub_def)
  then show ?thesis
    by (simp add: getBlockStats_def assms sum_pass_def var_pass_def Let_def)
qed

lemma computeSSIM_block_NaN:
  assumes "(x, y) \<in> set (blocks (width a) (height a))"
    and "getBlockStats (width a) (height a) (data a) (data b) x y = NaN"
  shows "computeSSIM a b = NaN"
proof -
  have "fold (\<lambda>xy m. js_add m (getBlockStats (width a) (height a) (data a) (data b) (fst xy) (snd xy)))
          (blocks (width a) (height a)) (Fin 0) = NaN"
    using assms(1) by (rule fold_add_has_NaN) (simp add: assms(2))
  then show ?thesis
    by (simp add: computeSSIM_def fold_block_step Let_def)
qed

lemma set_block_origins:
  "set (block_origins y0 h) = {y. y0 \<le> y \<and> y < h \<and> (y - y0) mod windowSize = 0}"
proof (induction y0 h rule: block_origins.induct)
  case (1 y0 h)
  show ?case
  proof (cases "y0 < h")
    case False
    then show ?thesis by (auto simp: block_origins.simps [of y0 h])
  next
    case True
    have "{y. y0 \<le> y \<and> y < h \<and> (y - y0) mod windowSize = 0} =
          insert y0 {y. y0 + windowSize \<le> y \<and> y < h \<and> (y - (y0 + windowSize)) mod windowSize = 0}"
      (is "?L = insert y0 ?R")
    proof (rule set_eqI)
      fix y
      show "y \<in> ?L \<longleftrightarrow> y \<in> insert y0 ?R"
      proof
        assume "y \<in> ?L"
        then have y: "y0 \<le> y" "y < h" "(y - y0) mod 8 = 0" by (simp_all add: windowSize_def)
        show "y \<in> insert y0 ?R"
        proof (cases "y = y0")
          case True then show ?thesis by simp
        next
          case False
          with y have "y0 + 8 \<le> y" by presburger
          moreover from this y have "(y - (y0 + 8)) mod 8 = 0" by presburger
          ultimately show ?thesis using y by (simp add: windowSize_def)
        qed
      next
        assume "y \<in> insert y0 ?R"
        then show "y \<in> ?L" using True
          by (auto simp: windowSize_def) presburger
      qed
    qed
    with True "1.IH" show ?thesis
      by (simp add: block_origins.simps [of y0 h])
  qed
qed

lemma in_blocks_iff:
  "(x, y) \<in> set (blocks w h) \<longleftrightarrow> x < w \<and> x mod windowSize = 0 \<and> y < h \<and> y mod windowSize = 0"
  by (auto simp: blocks_def set_block_origins)

lemma in_concat_map:
  "j \<in> set js \<Longrightarrow> i \<in> set is \<Longrightarrow> f j i \<in> set (concat (map (\<lambda>j. map (f j) is) js))"
  by auto

text \<open>The block that holds the pixel in column \<open>i\<close> of row \<open>j\<close>, and its index there.\<close>

lemma pixel_in_block:
  assumes "i < w" and "j < h"
  shows "(i - i mod windowSize, j - j mod windowSize) \<in> set (blocks w h)"
    and "(j * w + i) * 4 \<in> set (block_idx w h (i - i mod windowSize) (j - j mod windowSize))"
proof -
  have "(i - i mod 8) mod 8 = 0" "(j - j mod 8) mod 8 = 0" by presburger+
  with assms show "(i - i mod windowSize, j - j mod windowSize) \<in> set (blocks w h)"
    by (simp add: in_blocks_iff windowSize_def less_imp_diff_less)
  have "i - i mod 8 \<le> i" "i < i - i mod 8 + 8" "j - j mod 8 \<le> j" "j < j - j mod 8 + 8"
    by presburger+
  with assms have jj: "j \<in> set [j - j mod 8 ..< min (j - j mod 8 + 8) h]"
    and ii: "i \<in> set [i - i mod 8 ..< min (i - i mod 8 + 8) w]"
    by simp_all
  from in_concat_map [OF jj ii, of "\<lambda>j i. (j * w + i) * 4"]
  show "(j * w + i) * 4 \<in> set (block_idx w h (i - i mod windowSize) (j - j mod windowSize))"
    by (simp only: block_idx_def windowSize_def)
qed

lemma computeSSIM_pixel_NaN:
  assumes "i < width a" and "j < height a" and "px (data b) ((j * width a + i) * 4) = NaN"
  shows "computeSSIM a b = NaN"
  using computeSSIM_block_NaN [OF pixel_in_block(1) [OF assms(1,2)]]
    getBlockStats_NaN_data2 [OF pixel_in_block(2) [OF assms(1,2)] assms(3)]
  by simp

lemma block_origins_small: "0 < h \<Longrightarrow> h \<le> 8 \<Longrightarrow> block_origins 0 h = [0]"
  by (simp add: block_origins.simps [of 0] block_origins.simps [of 8] windowSize_def)

lemmas ssim_eval = computeSSIM_def blocks_def block_origins_small block_step_def getBlockStats_def
      block_idx_def windowSize_def sum_pass_def var_pass_def px_def js_sub_def js_pow2_def
      upt_rec ssim_C1_def ssim_C2_def

lemma ssim_same_2x1:
  "computeSSIM \<lparr>width = 2, height = 1, data = [10, 20, 30, 255, 200, 20, 30, 255]\<rparr>
               \<lparr>width = 2, height = 1, data = [10, 20, 30, 255, 200, 20, 30, 255]\<rparr> = Fin 1"
  by (simp add: ssim_eval)

lemma ssim_taller_template:
  "computeSSIM \<lparr>width = 2, height = 1, data = [10, 20, 30, 255, 200, 20, 30, 255]\<rparr>
               \<lparr>width = 2, height = 2,
                data = [10, 20, 30, 255, 200, 20, 30, 255, 1, 2, 3, 4, 5, 6, 7, 8]\<rparr> = Fin 1"
  by (simp add: ssim_eval)

lemma last_pixel_index:
  fixes w h :: nat
  assumes "0 < w" and "0 < h"
  shows "((h - 1) * w + (w - 1)) * 4 = 4 * (w * h - 1)"
proof -
  obtain w' h' where "w = Suc w'" "h = Suc h'"
    using assms by (cases w; cases h) auto
  then show ?thesis by (simp add: algebra_simps)
qed

lemma computeSSIM_fewer_pixels:
  assumes "well_formed b" and "width b * height b < width a * height a"
  shows "computeSSIM a b = NaN"
proof -
  from assms(2) have pos: "0 < width a" "0 < height a"
    by (cases "width a"; cases "height a"; simp)+
  have "length (data b) \<le> 4 * (width a * height a - 1)"
    using assms by (simp add: well_formed_def)
  then have "\<not> ((height a - 1) * width a + (width a - 1)) * 4 < length (data b)"
    unfolding last_pixel_index [OF pos] by linarith
  then have "px (data b) (((height a - 1) * width a + (width a - 1)) * 4) = NaN"
    by (simp only: px_def if_False)
  with pos show ?thesis
    by (intro computeSSIM_pixel_NaN [of "width a - 1" a "height a - 1"]) simp_all
qed

lemma corner_block:
  assumes "w mod 8 = 1" and "h mod 8 = 1"
  shows "(w - 1, h - 1) \<in> set (blocks w h)"
    and "block_idx w h (w - 1) (h - 1) = [((h - 1) * w + (w - 1)) * 4]"
proof -
  from assms have pos: "0 < w" "0 < h" by presburger+
  from assms have "(w - 1) mod 8 = 0" "(h - 1) mod 8 = 0" by presburger+
  with pos show "(w - 1, h - 1) \<in> set (blocks w h)"
    by (simp add: in_blocks_iff windowSize_def)
  from pos have "[w - 1 ..< min (w - 1 + 8) w] = [w - 1]" "[h - 1 ..< min (h - 1 + 8) h] = [h - 1]"
    by (simp_all add: min_def upt_rec)
  then show "block_idx w h (w - 1) (h - 1) = [((h - 1) * w + (w - 1)) * 4]"
    by (simp add: block_idx_def windowSize_def)
qed

subsection \<open>An image against itself\<close>

lemma fold_add_Fin:
  "fold (\<lambda>i m. js_add m (Fin (g i))) xs (Fin a) = Fin (a + sum_list (map g xs))"
  by (induction xs arbitrary: a) (simp_all add: add.assoc)

lemma fold_add_px:
  assumes "\<forall>i\<in>set xs. P i = Fin (g i)"
  shows "fold (\<lambda>i m. js_add m (P i)) xs (Fin a) = Fin (a + sum_list (map g xs))"
proof -
  have "fold (\<lambda>i m. js_add m (P i)) xs (Fin a) = fold (\<lambda>i m. js_add m (Fin (g i))) xs (Fin a)"
    by (rule fold_cong) (use assms in auto)
  then show ?thesis by (simp add: fold_add_Fin)
qed

lemma length_concat_map_const:
  "length (concat (map (\<lambda>j. map (f j) is) js)) = length js * length is"
  by (induction js) simp_all

lemma length_block_idx:
  "length (block_idx w h x y) = (min (y + 8) h - y) * (min (x + 8) w - x)"
  by (simp add: block_idx_def windowSize_def length_concat_map_const)

lemma block_idx_in_range:
  assumes "idx \<in> set (block_idx w h x y)"
  shows "idx < 4 * w * h"
proof -
  from assms obtain i j where ij: "idx = (j * w + i) * 4" "i < w" "j < h"
    by (auto simp: block_idx_def)
  from ij(3) have "Suc j * w \<le> h * w" by (intro mult_le_mono1) simp
  with ij(2) have "j * w + i < h * w" by simp
  then show ?thesis by (simp add: ij(1) mult.commute)
qed

lemma block_at_least_two:
  assumes "(x, y) \<in> set (blocks w h)" and "\<not> (w mod 8 = 1 \<and> h mod 8 = 1)"
  shows "2 \<le> length (block_idx w h x y)"
proof -
  from assms(1) have x: "x < w" "x mod 8 = 0" and y: "y < h" "y mod 8 = 0"
    by (simp_all add: in_blocks_iff windowSize_def)
  have bw: "1 \<le> min (x + 8) w - x" and bh: "1 \<le> min (y + 8) h - y"
    using x y by simp_all
  from assms(2) consider "w mod 8 \<noteq> 1" | "h mod 8 \<noteq> 1" by blast
  then have "2 \<le> min (x + 8) w - x \<or> 2 \<le> min (y + 8) h - y"
  proof cases
    case 1
    with x have "w \<noteq> x + 1" by presburger
    with x have "2 \<le> min (x + 8) w - x" by linarith
    then show ?thesis by simp
  next
    case 2
    with y have "h \<noteq> y + 1" by presburger
    with y have "2 \<le> min (y + 8) h - y" by linarith
    then show ?thesis by simp
  qed
  then have "2 * 1 \<le> (min (y + 8) h - y) * (min (x + 8) w - x)"
  proof
    assume "2 \<le> min (x + 8) w - x"
    with bh have "1 * 2 \<le> (min (y + 8) h - y) * (min (x + 8) w - x)"
      by (rule mult_le_mono)
    then show ?thesis by simp
  next
    assume "2 \<le> min (y + 8) h - y"
    then show ?thesis using bw by (rule mult_le_mono)
  qed
  then show ?thesis by (simp add: length_block_idx)
qed

lemma self_formula_one:
  fixes m v :: real
  assumes "0 \<le> v"
  shows "js_div (js_mul (js_add (js_mul (js_mul (Fin 2) (Fin m)) (Fin m)) (Fin ssim_C1))
                        (js_add (js_mul (Fin 2) (Fin v)) (Fin ssim_C2)))
                (js_mul (js_add (js_add (js_pow2 (Fin m)) (js_pow2 (Fin m))) (Fin ssim_C1))
                        (js_add (js_add (Fin v) (Fin v)) (Fin ssim_C2))) = Fin 1"
proof -
  have "0 < m * m + m * m + ssim_C1"
    using zero_le_square [of m] by (simp add: ssim_C1_def add_pos_nonneg add_nonneg_pos)
  moreover have "0 < v + v + ssim_C2"
    using assms by (simp add: ssim_C2_def add_nonneg_pos)
  ultimately have "(m * m + m * m + ssim_C1) * (v + v + ssim_C2) \<noteq> 0"
    by simp
  then show ?thesis by (simp add: js_pow2_def)
qed

lemma getBlockStats_self_one:
  assumes rng: "\<forall>idx\<in>set (block_idx w h x y). idx < length d"
    and two: "2 \<le> length (block_idx w h x y)"
  shows "getBlockStats w h d d x y = Fin 1"
proof -
  let ?xs = "block_idx w h x y"
  let ?g = "\<lambda>i. real (unat (d ! i))"
  let ?N = "real (length ?xs)"
  define m where "m = sum_list (map ?g ?xs) / ?N"
  define q where "q = sum_list (map (\<lambda>i. (?g i - m) * (?g i - m)) ?xs)"
  define v where "v = q / (?N - 1)"
  from two have ne: "?xs \<noteq> []" by auto
  from two have "2 \<le> ?N" by simp
  then have N0: "?N \<noteq> 0" and N1: "?N - 1 \<noteq> 0" and N1pos: "0 < ?N - 1" by linarith+
  have px: "\<forall>i\<in>set ?xs. px d i = Fin (?g i)"
    using rng by (simp add: px_def)
  have sum: "fold (\<lambda>i a. js_add a (px d i)) ?xs (Fin 0) = Fin (sum_list (map ?g ?xs))"
    using fold_add_px [OF px, of 0] by simp
  have mu: "js_div (Fin (sum_list (map ?g ?xs))) (Fin ?N) = Fin m"
    using N0 by (simp add: m_def)
  have dev: "\<forall>i\<in>set ?xs. js_mul (js_sub (px d i) (Fin m)) (js_sub (px d i) (Fin m))
      = Fin ((?g i - m) * (?g i - m))"
    using px by (simp add: js_sub_def)
  have sq: "fold (\<lambda>i a. js_add a (js_mul (js_sub (px d i) (Fin m)) (js_sub (px d i) (Fin m)))) ?xs (Fin 0)
      = Fin q"
    using fold_add_px [OF dev, of 0] by (simp add: q_def)
  have sigma: "js_div (Fin q) (js_sub (Fin ?N) (Fin 1)) = Fin v"
    using N1 by (simp add: js_sub_def v_def)
  have "0 \<le> q" unfolding q_def by (rule sum_list_nonneg) auto
  with N1pos have v0: "0 \<le> v" by (simp add: v_def)
  have pass1: "fold (sum_pass d d) ?xs (Fin 0, Fin 0, 0) =
      (Fin (sum_list (map ?g ?xs)), Fin (sum_list (map ?g ?xs)), length ?xs)"
    by (simp add: fold_sum_pass sum)
  have pass2: "fold (var_pass d d (Fin m) (Fin m)) ?xs (Fin 0, Fin 0, Fin 0) = (Fin q, Fin q, Fin q)"
    by (simp only: fold_var_pass js_pow2_def sq)
  show ?thesis
    by (simp only: getBlockStats_def pass1 prod.case Let_def mu pass2 sigma self_formula_one [OF v0])
qed

text \<open>
  Away from the single-pixel corner the scorer is exact on equal inputs: a well-formed,
  non-empty image scores 1 against itself.
\<close>

lemma self_similarity_one:
  assumes wf: "well_formed a" and pos: "0 < width a" "0 < height a"
    and nondeg: "\<not> (width a mod 8 = 1 \<and> height a mod 8 = 1)"
  shows "computeSSIM a a = Fin 1"
proof -
  let ?bs = "blocks (width a) (height a)"
  have one: "\<forall>xy\<in>set ?bs. getBlockStats (width a) (height a) (data a) (data a) (fst xy) (snd xy) = Fin 1"
  proof
    fix xy assume "xy \<in> set ?bs"
    then have mem: "(fst xy, snd xy) \<in> set ?bs" by simp
    have "\<forall>idx\<in>set (block_idx (width a) (height a) (fst xy) (snd xy)). idx < length (data a)"
      using block_idx_in_range wf by (auto simp: well_formed_def)
    then show "getBlockStats (width a) (height a) (data a) (data a) (fst xy) (snd xy) = Fin 1"
      using block_at_least_two [OF mem nondeg] by (rule getBlockStats_self_one)
  qed
  have tot: "fold (\<lambda>xy m. js_add m (getBlockStats (width a) (height a) (data a) (data a) (fst xy) (snd xy)))
          ?bs (Fin 0) = Fin (real (length ?bs))"
    using fold_add_px [OF one, of 0] by (simp add: sum_list_triv)
  from pos have "(0, 0) \<in> set ?bs"
    by (simp add: in_blocks_iff)
  then have "?bs \<noteq> []" by auto
  then show ?thesis
    by (simp add: computeSSIM_def Let_def fold_block_step tot)
qed

section \<open>Properties of the matching loop\<close>

lemma best_match_loop_NaN:
  "best_match_loop capture (Some (emp, NaN)) rest = Some (emp, NaN)"
  by (induction rest) (simp_all add: Let_def)

lemma best_match_loop_Some:
  assumes "s0 \<noteq> NaN" and "\<forall>x\<in>set es. computeSSIM cap (biometric_data x) \<noteq> NaN"
  shows "\<exists>e s. best_match_loop cap (Some (e0, s0)) es = Some (e, s) \<and>
           ((e = e0 \<and> s = s0 \<and> (\<forall>x\<in>set es. \<not> js_gt (computeSSIM cap (biometric_data x)) s0)) \<or>
            (\<exists>pre post. es = pre @ e # post \<and> s = computeSSIM cap (biometric_data e) \<and>
               js_gt s s0 \<and>
               (\<forall>x\<in>set pre. js_gt s (computeSSIM cap (biometric_data x))) \<and>
               (\<forall>x\<in>set post. \<not> js_gt (computeSSIM cap (biometric_data x)) s)))"
  using assms
proof (induction es arbitrary: e0 s0)
  case Nil
  then show ?case by simp
next
  case (Cons e1 es)
  let ?sc = "\<lambda>x. computeSSIM cap (biometric_data x)"
  from Cons.prems have s1: "?sc e1 \<noteq> NaN" and rest: "\<forall>x\<in>set es. ?sc x \<noteq> NaN"
    by simp_all
  show ?case
  proof (cases "js_gt (?sc e1) s0")
    case True
    then have loop: "best_match_loop cap (Some (e0, s0)) (e1 # es) =
        best_match_loop cap (Some (e1, ?sc e1)) es"
      by (simp add: Let_def)
    from Cons.IH [OF s1 rest, of e1] obtain e s where
      res: "best_match_loop cap (Some (e1, ?sc e1)) es = Some (e, s)" and
      alt: "(e = e1 \<and> s = ?sc e1 \<and> (\<forall>x\<in>set es. \<not> js_gt (?sc x) (?sc e1))) \<or>
            (\<exists>pre post. es = pre @ e # post \<and> s = ?sc e \<and> js_gt s (?sc e1) \<and>
               (\<forall>x\<in>set pre. js_gt s (?sc x)) \<and> (\<forall>x\<in>set post. \<not> js_gt (?sc x) s))"
      by blast
    from alt show ?thesis
    proof
      assume a: "e = e1 \<and> s = ?sc e1 \<and> (\<forall>x\<in>set es. \<not> js_gt (?sc x) (?sc e1))"
      then have "e1 # es = [] @ e # es \<and> s = ?sc e \<and> js_gt s s0 \<and>
          (\<forall>x\<in>set []. js_gt s (?sc x)) \<and> (\<forall>x\<in>set es. \<not> js_gt (?sc x) s)"
        using True by simp
      with res loop show ?thesis by metis
    next
      assume "\<exists>pre post. es = pre @ e # post \<and> s = ?sc e \<and> js_gt s (?sc e1) \<and>
               (\<forall>x\<in>set pre. js_gt s (?sc x)) \<and> (\<forall>x\<in>set post. \<not> js_gt (?sc x) s)"
      then obtain pre post where d: "es = pre @ e # post" "s = ?sc e" "js_gt s (?sc e1)"
        "\<forall>x\<in>set pre. js_gt s (?sc x)" "\<forall>x\<in>set post. \<not> js_gt (?sc x) s"
        by blast
      from d(3) True have "js_gt s s0" by (rule js_gt_trans)
      with d have "e1 # es = (e1 # pre) @ e # post \<and> s = ?sc e \<and> js_gt s s0 \<and>
          (\<forall>x\<in>set (e1 # pre). js_gt s (?sc x)) \<and> (\<forall>x\<in>set post. \<not> js_gt (?sc x) s)"
        by simp
      with res loop show ?thesis by metis
    qed
  next
    case False
    then have loop: "best_match_loop cap (Some (e0, s0)) (e1 # es) =
        best_match_loop cap (Some (e0, s0)) es"
      by (simp add: Let_def)
    from Cons.IH [OF Cons.prems(1) rest, of e0] obtain e s where
      res: "best_match_loop cap (Some (e0, s0)) es = Some (e, s)" and
      alt: "(e = e0 \<and> s = s0 \<and> (\<forall>x\<in>set es. \<not> js_gt (?sc x) s0)) \<or>
            (\<exists>pre post. es = pre @ e # post \<and> s = ?sc e \<and> js_gt s s0 \<and>
               (\<forall>x\<in>set pre. js_gt s (?sc x)) \<and> (\<forall>x\<in>set post. \<not> js_gt (?sc x) s))"
      by blast
    from alt show ?thesis
    proof
      assume "e = e0 \<and> s = s0 \<and> (\<forall>x\<in>set es. \<not> js_gt (?sc x) s0)"
      with False have "e = e0 \<and> s = s0 \<and> (\<forall>x\<in>set (e1 # es). \<not> js_gt (?sc x) s0)"
        by simp
      with res loop show ?thesis by metis
    next
      assume "\<exists>pre post. es = pre @ e # post \<and> s = ?sc e \<and> js_gt s s0 \<and>
               (\<forall>x\<in>set pre. js_gt s (?sc x)) \<and> (\<forall>x\<in>set post. \<not> js_gt (?sc x) s)"
      then obtain pre post where d: "es = pre @ e # post" "s = ?sc e" "js_gt s s0"
        "\<forall>x\<in>set pre. js_gt s (?sc x)" "\<forall>x\<in>set post. \<not> js_gt (?sc x) s"
        by blast
      from d(3) False s1 have "js_gt s (?sc e1)" by (rule js_gt_not_gt_trans)
      with d have "e1 # es = (e1 # pre) @ e # post \<and> s = ?sc e \<and> js_gt s s0 \<and>
          (\<forall>x\<in>set (e1 # pre). js_gt s (?sc x)) \<and> (\<forall>x\<in>set post. \<not> js_gt (?sc x) s)"
        by simp
      with res loop show ?thesis by metis
    qed
  qed
qed

lemma best_match_first_maximum:
  assumes "roster \<noteq> []" and "NaN \<notin> set (scores cap roster)"
  shows "\<exists>pre emp post. roster = pre @ emp # post \<and>
           (\<forall>x\<in>set pre. js_gt (computeSSIM cap (biometric_data emp)) (computeSSIM cap (biometric_data x))) \<and>
           (\<forall>x\<in>set post. \<not> js_gt (computeSSIM cap (biometric_data x)) (computeSSIM cap (biometric_data emp))) \<and>
           best_match_loop cap None roster = Some (emp, computeSSIM cap (biometric_data emp))"
proof -
  let ?sc = "\<lambda>x. computeSSIM cap (biometric_data x)"
  from assms(1) obtain e1 es where roster: "roster = e1 # es" by (cases roster) auto
  from assms(2) have s1: "?sc e1 \<noteq> NaN" and rest: "\<forall>x\<in>set es. ?sc x \<noteq> NaN"
    by (force simp: roster scores_def)+
  have start: "best_match_loop cap None roster = best_match_loop cap (Some (e1, ?sc e1)) es"
    by (simp add: roster Let_def)
  from best_match_loop_Some [OF s1 rest, of e1] obtain e s where
    res: "best_match_loop cap (Some (e1, ?sc e1)) es = Some (e, s)" and
    alt: "(e = e1 \<and> s = ?sc e1 \<and> (\<forall>x\<in>set es. \<not> js_gt (?sc x) (?sc e1))) \<or>
          (\<exists>pre post. es = pre @ e # post \<and> s = ?sc e \<and> js_gt s (?sc e1) \<and>
             (\<forall>x\<in>set pre. js_gt s (?sc x)) \<and> (\<forall>x\<in>set post. \<not> js_gt (?sc x) s))"
    by blast
  from alt show ?thesis
  proof
    assume "e = e1 \<and> s = ?sc e1 \<and> (\<forall>x\<in>set es. \<not> js_gt (?sc x) (?sc e1))"
    then have "roster = [] @ e1 # es \<and> (\<forall>x\<in>set []. js_gt (?sc e1) (?sc x)) \<and>
        (\<forall>x\<in>set es. \<not> js_gt (?sc x) (?sc e1)) \<and>
        best_match_loop cap None roster = Some (e1, ?sc e1)"
      using res start roster by simp
    then show ?thesis by blast
  next
    assume "\<exists>pre post. es = pre @ e # post \<and> s = ?sc e \<and> js_gt s (?sc e1) \<and>
             (\<forall>x\<in>set pre. js_gt s (?sc x)) \<and> (\<forall>x\<in>set post. \<not> js_gt (?sc x) s)"
    then obtain pre post where d: "es = pre @ e # post" "s = ?sc e" "js_gt s (?sc e1)"
      "\<forall>x\<in>set pre. js_gt s (?sc x)" "\<forall>x\<in>set post. \<not> js_gt (?sc x) s"
      by blast
    then have "roster = (e1 # pre) @ e # post \<and> (\<forall>x\<in>set (e1 # pre). js_gt (?sc e) (?sc x)) \<and>
        (\<forall>x\<in>set post. \<not> js_gt (?sc x) (?sc e)) \<and>
        best_match_loop cap None roster = Some (e, ?sc e)"
      using res start roster by simp
    then show ?thesis by blast
  qed
qed

section \<open>The claims about the scorer and the matcher\<close>

text \<open>
  Claim C6, as stated, fails: with an empty employee list a captured sample posts no
  message at all, so the result is not \<^verbatim>\<open>no_match\<close> (and there is no best score,
  sentinel or other).
\<close>

theorem empty_roster_posts_nothing:
  "onSamplesAcquired attendance \<lparr>width = 2, height = 1, data = [10, 20, 30, 255, 200, 20, 30, 255]\<rparr> []
     \<noteq> Some NoMatch"
  by (simp add: onSamplesAcquired_def)

text \<open>
  Claim C6, amended. With an empty roster nothing is posted. With a non-empty roster none
  of whose scores is NaN, the roster splits around one employee whose score is greater
  than every earlier score and not exceeded by any later one (the first maximum), and the
  message is \<^verbatim>\<open>match\<close> with that employee when the score is at least 0.36 and
  \<^verbatim>\<open>no_match\<close> otherwise.
\<close>

theorem match_first_maximum_over_threshold:
  "onSamplesAcquired attendance capture [] = None \<and>
   (roster \<noteq> [] \<and> NaN \<notin> set (scores capture roster) \<longrightarrow>
     (\<exists>pre emp post. roster = pre @ emp # post \<and>
        (\<forall>x\<in>set pre. js_gt (computeSSIM capture (biometric_data emp))
                          (computeSSIM capture (biometric_data x))) \<and>
        (\<forall>x\<in>set post. \<not> js_gt (computeSSIM capture (biometric_data x))
                            (computeSSIM capture (biometric_data emp))) \<and>
        onSamplesAcquired attendance capture roster =
          Some (if js_ge (computeSSIM capture (biometric_data emp)) (Fin THRESHOLD)
                then Match emp else NoMatch)))"
proof (intro conjI impI)
  show "onSamplesAcquired attendance capture [] = None"
    by (simp add: onSamplesAcquired_def)
next
  assume a: "roster \<noteq> [] \<and> NaN \<notin> set (scores capture roster)"
  then obtain pre emp post where d: "roster = pre @ emp # post"
    "\<forall>x\<in>set pre. js_gt (computeSSIM capture (biometric_data emp)) (computeSSIM capture (biometric_data x))"
    "\<forall>x\<in>set post. \<not> js_gt (computeSSIM capture (biometric_data x)) (computeSSIM capture (biometric_data emp))"
    "best_match_loop capture None roster = Some (emp, computeSSIM capture (biometric_data emp))"
    using best_match_first_maximum [of roster capture] by blast
  from a d(4) have "onSamplesAcquired attendance capture roster =
          Some (if js_ge (computeSSIM capture (biometric_data emp)) (Fin THRESHOLD)
                then Match emp else NoMatch)"
    by (simp add: onSamplesAcquired_def)
  with d(1,2,3) show "\<exists>pre emp post. roster = pre @ emp # post \<and>
        (\<forall>x\<in>set pre. js_gt (computeSSIM capture (biometric_data emp))
                          (computeSSIM capture (biometric_data x))) \<and>
        (\<forall>x\<in>set post. \<not> js_gt (computeSSIM capture (biometric_data x))
                            (computeSSIM capture (biometric_data emp))) \<and>
        onSamplesAcquired attendance capture roster =
          Some (if js_ge (computeSSIM capture (biometric_data emp)) (Fin THRESHOLD)
                then Match emp else NoMatch)"
    by blast
qed

theorem match_first_maximum_over_threshold_witness:
  "[\<lparr>emp_id = ''E1'', biometric_data =
        \<lparr>width = 2, height = 1, data = [10, 20, 30, 255, 200, 20, 30, 255]\<rparr>\<rparr>,
    \<lparr>emp_id = ''E2'', biometric_data =
        \<lparr>width = 2, height = 1, data = [10, 20, 30, 255, 200, 20, 30, 255]\<rparr>\<rparr>] \<noteq> [] \<and>
   NaN \<notin> set (scores \<lparr>width = 2, height = 1, data = [10, 20, 30, 255, 200, 20, 30, 255]\<rparr>
     [\<lparr>emp_id = ''E1'', biometric_data =
        \<lparr>width = 2, height = 1, data = [10, 20, 30, 255, 200, 20, 30, 255]\<rparr>\<rparr>,
      \<lparr>emp_id = ''E2'', biometric_data =
        \<lparr>width = 2, height = 1, data = [10, 20, 30, 255, 200, 20, 30, 255]\<rparr>\<rparr>]) \<and>
   onSamplesAcquired attendance \<lparr>width = 2, height = 1, data = [10, 20, 30, 255, 200, 20, 30, 255]\<rparr>
     [\<lparr>emp_id = ''E1'', biometric_data =
        \<lparr>width = 2, height = 1, data = [10, 20, 30, 255, 200, 20, 30, 255]\<rparr>\<rparr>,
      \<lparr>emp_id = ''E2'', biometric_data =
        \<lparr>width = 2, height = 1, data = [10, 20, 30, 255, 200, 20, 30, 255]\<rparr>\<rparr>]
     = Some (Match \<lparr>emp_id = ''E1'', biometric_data =
        \<lparr>width = 2, height = 1, data = [10, 20, 30, 255, 200, 20, 30, 255]\<rparr>\<rparr>)"
proof -
  let ?cap = "\<lparr>width = 2, height = 1, data = [10, 20, 30, 255, 200, 20, 30, 255]\<rparr>"
  let ?e1 = "\<lparr>emp_id = ''E1'', biometric_data = ?cap\<rparr>"
  let ?e2 = "\<lparr>emp_id = ''E2'', biometric_data = ?cap\<rparr>"
  have one: "computeSSIM ?cap ?cap = Fin 1"
    by (rule ssim_same_2x1)
  have sc: "scores ?cap [?e1, ?e2] = [Fin 1, Fin 1]"
    using one by (simp add: scores_def)
  then have h: "[?e1, ?e2] \<noteq> [] \<and> NaN \<notin> set (scores ?cap [?e1, ?e2])" by simp
  with match_first_maximum_over_threshold [of ?cap "[?e1, ?e2]"] obtain pre emp post where
    d: "[?e1, ?e2] = pre @ emp # post"
       "\<forall>x\<in>set pre. js_gt (computeSSIM ?cap (biometric_data emp)) (computeSSIM ?cap (biometric_data x))"
       "onSamplesAcquired attendance ?cap [?e1, ?e2] =
          Some (if js_ge (computeSSIM ?cap (biometric_data emp)) (Fin THRESHOLD)
                then Match emp else NoMatch)"
    by blast
  have "pre = []"
  proof (cases pre)
    case (Cons p ps)
    with d(1) have "p = ?e1" and "emp \<in> {?e1, ?e2}"
      by (auto simp: Cons_eq_append_conv append_eq_Cons_conv)
    with d(2) Cons one show ?thesis by auto
  qed simp
  with d(1) have "emp = ?e1" by simp
  with d(3) h one show ?thesis by (simp add: THRESHOLD_def)
qed

text \<open>
  Claim C7, as stated, fails: a capture of height 1 against a template of height 2 whose
  first row equals the capture scores 1; nothing fails.
\<close>

theorem score_of_mismatched_heights_is_one:
  "height \<lparr>width = 2, height = 1, data = [10, 20, 30, 255, 200, 20, 30, 255]\<rparr> \<noteq>
   height \<lparr>width = 2, height = 2,
           data = [10, 20, 30, 255, 200, 20, 30, 255, 1, 2, 3, 4, 5, 6, 7, 8]\<rparr> \<and>
   computeSSIM \<lparr>width = 2, height = 1, data = [10, 20, 30, 255, 200, 20, 30, 255]\<rparr>
               \<lparr>width = 2, height = 2,
                data = [10, 20, 30, 255, 200, 20, 30, 255, 1, 2, 3, 4, 5, 6, 7, 8]\<rparr> = Fin 1"
  using ssim_taller_template by simp

text \<open>
  Claim C7, amended. The scorer compares no dimensions and has no failure: the declared
  width and height of the second image never enter the result, which is computed on the
  grid of the first image; and when the second image is well formed with fewer pixels
  than the first, the result is NaN.
\<close>

theorem score_has_no_dimension_check:
  "computeSSIM a (b\<lparr>width := w', height := h'\<rparr>) = computeSSIM a b \<and>
   (well_formed b \<and> width b * height b < width a * height a \<longrightarrow> computeSSIM a b = NaN)"
  by (simp add: computeSSIM_fewer_pixels) (simp add: computeSSIM_def)

theorem score_has_no_dimension_check_witness:
  "well_formed \<lparr>width = 1, height = 1, data = [10, 20, 30, 255]\<rparr> \<and>
   computeSSIM \<lparr>width = 2, height = 1, data = [10, 20, 30, 255, 200, 20, 30, 255]\<rparr>
               \<lparr>width = 1, height = 1, data = [10, 20, 30, 255]\<rparr> = NaN"
  using score_has_no_dimension_check [where a = "\<lparr>width = 2, height = 1, data = [10, 20, 30, 255, 200, 20, 30, 255]\<rparr>"
      and b = "\<lparr>width = 1, height = 1, data = [10, 20, 30, 255]\<rparr>"]
  by (simp add: well_formed_def)

text \<open>
  Claim C8 does not hold of the code. When width and height both leave remainder 1
  modulo 8, the outer loops visit the block at the last row and column, its pixel count
  \<open>N\<close> is 1, nothing special-cases it, and the three divisions by \<open>N - 1 = 0\<close> make
  the block's value NaN whatever the pixel data.
\<close>

theorem single_pixel_block_divides_by_zero:
  assumes "w mod 8 = 1" and "h mod 8 = 1"
  shows "(w - 1, h - 1) \<in> set (blocks w h) \<and>
         snd (snd (fold (sum_pass data1 data2) (block_idx w h (w - 1) (h - 1)) (Fin 0, Fin 0, 0))) = 1 \<and>
         getBlockStats w h data1 data2 (w - 1) (h - 1) = NaN"
  using corner_block [OF assms] getBlockStats_single_pixel [OF corner_block(2) [OF assms]]
  by (simp add: sum_pass_def)

theorem single_pixel_block_divides_by_zero_witness:
  "(9::nat) mod 8 = 1 \<and> (8, 8) \<in> set (blocks 9 9) \<and>
   snd (snd (fold (sum_pass (replicate 324 7) (replicate 324 7)) (block_idx 9 9 8 8) (Fin 0, Fin 0, 0))) = 1 \<and>
   getBlockStats 9 9 (replicate 324 7) (replicate 324 7) 8 8 = NaN"
  using single_pixel_block_divides_by_zero [of 9 9 "replicate 324 7" "replicate 324 7"] by simp

text \<open>
  Claim C9 does not hold of the code. For an image whose width and height both leave
  remainder 1 modulo 8 the score of the image against itself is NaN, not 1.
\<close>

theorem self_similarity_nan_on_single_pixel_corner:
  assumes "width a mod 8 = 1" and "height a mod 8 = 1"
  shows "computeSSIM a a = NaN"
  using computeSSIM_block_NaN [OF corner_block(1) [OF assms]]
    getBlockStats_single_pixel [OF corner_block(2) [OF assms]]
  by simp

theorem self_similarity_nan_on_single_pixel_corner_witness:
  "width \<lparr>width = 9, height = 9, data = replicate 324 7\<rparr> mod 8 = 1 \<and>
   well_formed \<lparr>width = 9, height = 9, data = replicate 324 7\<rparr> \<and>
   computeSSIM \<lparr>width = 9, height = 9, data = replicate 324 7\<rparr>
               \<lparr>width = 9, height = 9, data = replicate 324 7\<rparr> = NaN"
  using self_similarity_nan_on_single_pixel_corner [of "\<lparr>width = 9, height = 9, data = replicate 324 7\<rparr>"]
  by (simp add: well_formed_def)

text \<open>
  Claim C10. The first employee of the roster becomes the best match before any
  comparison; when that employee's score is NaN the loop ends with the same best match and
  the message is \<^verbatim>\<open>no_match\<close>, whatever the scores of the rest of the roster.
\<close>

theorem nan_first_template_blocks_match:
  assumes "computeSSIM capture (biometric_data emp) = NaN"
  shows "best_match_loop capture None (emp # rest) = Some (emp, NaN) \<and>
         onSamplesAcquired attendance capture (emp # rest) = Some NoMatch"
proof -
  have "best_match_loop capture None (emp # rest) = Some (emp, NaN)"
    by (simp add: Let_def assms best_match_loop_NaN)
  then show ?thesis by (simp add: onSamplesAcquired_def)
qed

theorem nan_first_template_blocks_match_witness:
  "computeSSIM \<lparr>width = 2, height = 1, data = [10, 20, 30, 255, 200, 20, 30, 255]\<rparr>
     (biometric_data \<lparr>emp_id = ''E1'', biometric_data = \<lparr>width = 1, height = 1, data = [10, 20, 30, 255]\<rparr>\<rparr>) = NaN \<and>
   computeSSIM \<lparr>width = 2, height = 1, data = [10, 20, 30, 255, 200, 20, 30, 255]\<rparr>
     (biometric_data \<lparr>emp_id = ''E2'', biometric_data =
        \<lparr>width = 2, height = 1, data = [10, 20, 30, 255, 200, 20, 30, 255]\<rparr>\<rparr>) = Fin 1 \<and>
   js_ge (Fin 1) (Fin THRESHOLD) \<and>
   onSamplesAcquired attendance
     \<lparr>width = 2, height = 1, data = [10, 20, 30, 255, 200, 20, 30, 255]\<rparr>
     [\<lparr>emp_id = ''E1'', biometric_data = \<lparr>width = 1, height = 1, data = [10, 20, 30, 255]\<rparr>\<rparr>,
      \<lparr>emp_id = ''E2'', biometric_data =
        \<lparr>width = 2, height = 1, data = [10, 20, 30, 255, 200, 20, 30, 255]\<rparr>\<rparr>] = Some NoMatch"
proof -
  have h: "computeSSIM \<lparr>width = 2, height = 1, data = [10, 20, 30, 255, 200, 20, 30, 255]\<rparr>
     (biometric_data \<lparr>emp_id = ''E1'', biometric_data = \<lparr>width = 1, height = 1, data = [10, 20, 30, 255]\<rparr>\<rparr>) = NaN"
    by (simp add: computeSSIM_fewer_pixels well_formed_def)
  from nan_first_template_blocks_match [OF h] h ssim_same_2x1 show ?thesis
    by (simp add: THRESHOLD_def)
qed

end
